theory Spec2Isabelle
  imports Main "HOL-Library.Word" "HOL-Library.Multiset"
begin

unbundle bit_operations_syntax

section \<open>Data model of \<^verbatim>\<open>wlt_toolkit.c\<close>\<close>

text \<open>
  C's \<^verbatim>\<open>unsigned int\<close> and \<^verbatim>\<open>uint32_t\<close> are 32-bit words, \<^verbatim>\<open>size_t\<close> and data
  pointers are 64-bit words (LP64). Handles of protocol objects (\<^verbatim>\<open>struct wl_buffer *\<close>,
  \<^verbatim>\<open>struct wl_callback *\<close>, ...) are never dereferenced by the toolkit: they are natural
  numbers, and a nullable handle is an \<open>option\<close> with \<open>None\<close> for \<^verbatim>\<open>NULL\<close>.
  The functions are modelled for non-\<^verbatim>\<open>NULL\<close> object arguments; with a \<^verbatim>\<open>NULL\<close> window
  or display each of them returns before it touches anything.
\<close>

type_synonym u32 = "32 word"
type_synonym size_t = "64 word"
type_synonym ptr = "64 word"
type_synonym handle = nat

definition EINVAL :: int where "EINVAL = 22"
definition ENOMEM :: int where "ENOMEM = 12"
definition EFAULT :: int where "EFAULT = 14"

text \<open>\<^verbatim>\<open>struct wlt_pool\<close>.\<close>

record wlt_pool =
  pool_w_pool :: handle
  pool_size :: size_t
  pool_data :: ptr

text \<open>
  \<^verbatim>\<open>struct wlt_shm_buffer\<close> and \<^verbatim>\<open>struct wlt_rect\<close> are declared in \<^verbatim>\<open>wlt_toolkit.h\<close>;
  their integer fields are \<^verbatim>\<open>unsigned int\<close>, as the locals the source copies them into
  (\<^verbatim>\<open>oldw\<close>, \<^verbatim>\<open>oldh\<close>, the arguments of \<^verbatim>\<open>resize_window\<close>), and \<^verbatim>\<open>data\<close> is a byte pointer.
\<close>

record wlt_shm_buffer =
  buf_data :: ptr
  buf_width :: u32
  buf_height :: u32
  buf_stride :: u32

record wlt_rect =
  rect_x :: u32
  rect_y :: u32
  rect_width :: u32
  rect_height :: u32

text \<open>
  \<^verbatim>\<open>struct wlt_widget\<close>. A callback slot is a function pointer that is \<^verbatim>\<open>NULL\<close> or set.
  The prepare-resize callback receives the widget and pointers to the proposed width and
  height. It may overwrite the two values, and it is application code that can call back
  into the toolkit for the widget's window while it runs: it is a function from the
  proposed pair to the new pair and the toolkit calls it makes, in order. Of those calls
  the model has the two that request work for a later frame, \<^verbatim>\<open>wlt_window_schedule_redraw\<close>
  and \<^verbatim>\<open>wlt_window_set_size\<close>. Every other callback is opaque application code, of which
  the model records that it was invoked and with which arguments.
\<close>

datatype toolkit_call = Call_schedule_redraw | Call_set_size u32 u32

record wlt_widget =
  widget_data :: nat
  redraw_cb :: bool
  destroy_cb :: bool
  prepare_resize_cb :: "(u32 \<times> u32 \<Rightarrow> (u32 \<times> u32) \<times> toolkit_call list) option"
  resize_cb :: bool
  pointer_enter_cb :: bool
  pointer_leave_cb :: bool
  pointer_motion_cb :: bool
  pointer_button_cb :: bool
  keyboard_cb :: bool

text \<open>\<^verbatim>\<open>struct wlt_window\<close> (without the reference count and the list links).\<close>

record wlt_window =
  close_cb :: bool
  close_pending :: bool
  pool :: "wlt_pool option"
  w_surface :: handle
  w_buffer :: "handle option"
  buffer_attached :: bool
  skip_damage :: bool
  need_resize :: bool
  need_redraw :: bool
  need_frame :: bool
  idle_pending :: bool
  new_width :: u32
  new_height :: u32
  resize_edges :: u32
  buffer :: wlt_shm_buffer
  w_frame :: "handle option"
  widget_list :: "wlt_widget list"

text \<open>The two events a display listener receives (\<^verbatim>\<open>shl_hook_call\<close> on \<^verbatim>\<open>disp->listeners\<close>).\<close>

datatype display_event = WLT_DISPLAY_READY | WLT_DISPLAY_HUP

text \<open>The two idle callbacks the toolkit registers with the event loop, for one window.\<close>

datatype idle_cb = Idle_frame | Close_window

text \<open>
  Everything the toolkit does to the outside is recorded in a log, oldest entry first:
  each invocation of an application callback, each call into the display protocol
  library, the shared-memory pool and the event loop. \<open>Enter_resize_window\<close> marks one
  execution of \<^verbatim>\<open>resize_window\<close>, so that executions can be counted.
\<close>

datatype call =
    Cb_prepare_resize nat u32 u32
  | Cb_resize nat wlt_rect
  | Cb_redraw nat
  | Cb_pointer_leave nat
  | Cb_keyboard nat u32 u32 u32
  | Cb_close
  | Hook_call display_event
  | Load_cursors
  | Ev_eloop_rm_fd
  | Wlt_pool_new size_t
  | Wlt_pool_free wlt_pool
  | Wl_shm_pool_create_buffer handle u32 u32 u32
  | Wl_buffer_destroy handle
  | Memset ptr u32
  | Wl_surface_attach "handle option" u32 u32
  | Wl_surface_damage u32 u32 u32 u32
  | Wl_surface_frame
  | Ev_register_idle idle_cb
  | Ev_unregister_idle idle_cb
  | Enter_resize_window u32 u32

record world =
  calls :: "call list"
  idlers :: "idle_cb list"

definition emit :: "call \<Rightarrow> world \<Rightarrow> world" where
  "emit c wo = wo\<lparr>calls := calls wo @ [c]\<rparr>"

text \<open>
  What the outside answers during one operation: the outcome of \<^verbatim>\<open>wlt_pool_new\<close>'s system
  calls, the handle \<^verbatim>\<open>wl_shm_pool_create_buffer\<close> returns and the handle
  \<^verbatim>\<open>wl_surface_frame\<close> returns (\<open>None\<close> for \<^verbatim>\<open>NULL\<close>).
\<close>

datatype pool_new_outcome =
    No_runtime_dir
  | Malloc_pool_fails
  | Malloc_name_fails
  | Mkostemp_fails
  | Ftruncate_fails
  | Mmap_fails
  | Create_pool_fails
  | Pool_created ptr handle

record env =
  pool_new_res :: pool_new_outcome
  create_buffer_res :: "handle option"
  surface_frame_res :: "handle option"

section \<open>The event loop's idle callbacks\<close>

text \<open>
  Modelled from the spec: \<^verbatim>\<open>ev_eloop_register_idle_cb\<close> and \<^verbatim>\<open>ev_eloop_unregister_idle_cb\<close>
  (\<^verbatim>\<open>eloop.c\<close> and \<^verbatim>\<open>shl_hook.h\<close> are not under \<^verbatim>\<open>src/\<close>). The spec describes them as
  "register/unregister a one-shot idle callback", with "callback identity + opaque data
  used as the unregistration key", run in "strict FIFO" order. The registry is the queue
  of registered keys: registering appends one entry, unregistering removes one entry with
  that key and does nothing when there is none. The dispatch of the queue is
  \<open>ev_eloop_run_idle\<close>, further down.
\<close>

definition ev_eloop_register_idle_cb :: "idle_cb \<Rightarrow> world \<Rightarrow> world" where
  "ev_eloop_register_idle_cb k wo =
     (emit (Ev_register_idle k) wo)\<lparr>idlers := idlers wo @ [k]\<rparr>"

definition ev_eloop_unregister_idle_cb :: "idle_cb \<Rightarrow> world \<Rightarrow> world" where
  "ev_eloop_unregister_idle_cb k wo =
     (emit (Ev_unregister_idle k) wo)\<lparr>idlers := remove1 k (idlers wo)\<rparr>"

section \<open>Shared-memory pool\<close>

text \<open>
  \<^verbatim>\<open>wlt_pool_new\<close>: every failing step returns its error code; on success the pool has the
  requested size.
\<close>

definition wlt_pool_new :: "pool_new_outcome \<Rightarrow> size_t \<Rightarrow> int + wlt_pool" where
  "wlt_pool_new oc sz =
     (case oc of
        No_runtime_dir \<Rightarrow> Inl (- EFAULT)
      | Malloc_pool_fails \<Rightarrow> Inl (- ENOMEM)
      | Malloc_name_fails \<Rightarrow> Inl (- ENOMEM)
      | Mkostemp_fails \<Rightarrow> Inl (- EFAULT)
      | Ftruncate_fails \<Rightarrow> Inl (- EFAULT)
      | Mmap_fails \<Rightarrow> Inl (- EFAULT)
      | Create_pool_fails \<Rightarrow> Inl (- EFAULT)
      | Pool_created d h \<Rightarrow> Inr \<lparr>pool_w_pool = h, pool_size = sz, pool_data = d\<rparr>)"

section \<open>Requests for a frame\<close>

text \<open>
  \<^verbatim>\<open>schedule_frame\<close> and the two public functions that request a frame. They only set
  flags and register callbacks; \<^verbatim>\<open>do_frame\<close>, further down, does the work.
\<close>

definition schedule_frame :: "env \<Rightarrow> wlt_window \<Rightarrow> world \<Rightarrow> wlt_window \<times> world" where
  "schedule_frame e wnd wo =
     (if w_frame wnd \<noteq> None then (wnd, wo)
      else if \<not> need_frame wnd \<and> \<not> idle_pending wnd then
        (wnd\<lparr>idle_pending := True, w_frame := surface_frame_res e\<rparr>,
         emit Wl_surface_frame (ev_eloop_register_idle_cb Idle_frame wo))
      else (wnd, wo))"

definition wlt_window_schedule_redraw ::
  "env \<Rightarrow> wlt_window \<Rightarrow> world \<Rightarrow> wlt_window \<times> world" where
  "wlt_window_schedule_redraw e wnd wo = schedule_frame e (wnd\<lparr>need_redraw := True\<rparr>) wo"

definition wlt_window_set_size ::
  "env \<Rightarrow> u32 \<times> u32 \<Rightarrow> wlt_window \<times> world \<Rightarrow> int \<times> wlt_window \<times> world" where
  "wlt_window_set_size e req s =
     (case (req, s) of ((wd, ht), (wnd, wo)) \<Rightarrow>
        if wd = 0 \<or> ht = 0 then (- EINVAL, wnd, wo)
        else (0, schedule_frame e
                   (wnd\<lparr>new_width := wd, new_height := ht, need_resize := True\<rparr>) wo))"

text \<open>A sequence of \<^verbatim>\<open>wlt_window_set_size\<close> calls, one after the other, return values dropped.\<close>

fun set_size_calls ::
  "env \<Rightarrow> (u32 \<times> u32) list \<Rightarrow> wlt_window \<times> world \<Rightarrow> wlt_window \<times> world" where
  "set_size_calls e [] s = s"
| "set_size_calls e (r # rs) s = set_size_calls e rs (snd (wlt_window_set_size e r s))"

section \<open>Redraw and resize\<close>

text \<open>Constants of the display protocol and of the keymap library are given the values
  of those libraries' headers.\<close>

definition WL_SHELL_SURFACE_RESIZE_TOP :: u32 where "WL_SHELL_SURFACE_RESIZE_TOP = 1"
definition WL_SHELL_SURFACE_RESIZE_LEFT :: u32 where "WL_SHELL_SURFACE_RESIZE_LEFT = 4"

text \<open>The loops over \<^verbatim>\<open>wnd->widget_list\<close> in \<^verbatim>\<open>wlt_window_do_redraw\<close>.\<close>

fun resize_cbs :: "wlt_widget list \<Rightarrow> wlt_rect \<Rightarrow> world \<Rightarrow> world" where
  "resize_cbs [] a wo = wo"
| "resize_cbs (wd # ws) a wo =
     resize_cbs ws a (if resize_cb wd then emit (Cb_resize (widget_data wd) a) wo else wo)"

fun redraw_cbs :: "wlt_widget list \<Rightarrow> world \<Rightarrow> world" where
  "redraw_cbs [] wo = wo"
| "redraw_cbs (wd # ws) wo =
     redraw_cbs ws (if redraw_cb wd then emit (Cb_redraw (widget_data wd)) wo else wo)"

text \<open>The toolkit calls that a callback makes while it runs, applied to its window.\<close>

fun toolkit_calls ::
  "env \<Rightarrow> toolkit_call list \<Rightarrow> wlt_window \<times> world \<Rightarrow> wlt_window \<times> world" where
  "toolkit_calls e [] s = s"
| "toolkit_calls e (Call_schedule_redraw # cs) s =
     toolkit_calls e cs (wlt_window_schedule_redraw e (fst s) (snd s))"
| "toolkit_calls e (Call_set_size wd ht # cs) s =
     toolkit_calls e cs (snd (wlt_window_set_size e (wd, ht) s))"

text \<open>
  The prepare-resize loop of \<^verbatim>\<open>resize_window\<close>: each callback sees the pair as the
  callbacks before it left it, and what it does to the window is done before the next
  callback runs.
\<close>

fun prepare_resize_cbs ::
  "env \<Rightarrow> wlt_widget list \<Rightarrow> u32 \<Rightarrow> u32 \<Rightarrow> wlt_window \<times> world \<Rightarrow>
   u32 \<times> u32 \<times> wlt_window \<times> world" where
  "prepare_resize_cbs e [] wd ht s = (wd, ht, s)"
| "prepare_resize_cbs e (w # ws) wd ht s =
     (case prepare_resize_cb w of
        None \<Rightarrow> prepare_resize_cbs e ws wd ht s
      | Some f \<Rightarrow>
          prepare_resize_cbs e ws (fst (fst (f (wd, ht)))) (snd (fst (f (wd, ht))))
            (toolkit_calls e (snd (f (wd, ht)))
               (fst s, emit (Cb_prepare_resize (widget_data w) wd ht) (snd s))))"

text \<open>
  \<^verbatim>\<open>wlt_window_do_redraw\<close>. The attach offsets are computed in \<^verbatim>\<open>unsigned int\<close>
  (\<^verbatim>\<open>(int)oldw - wnd->buffer.width\<close> converts back to unsigned), so they wrap.
\<close>

definition wlt_window_do_redraw ::
  "wlt_window \<Rightarrow> u32 \<Rightarrow> u32 \<Rightarrow> world \<Rightarrow> wlt_window \<times> world" where
  "wlt_window_do_redraw wnd oldw oldh wo =
     (let alloc = \<lparr>rect_x = 0, rect_y = 0,
                   rect_width = buf_width (buffer wnd),
                   rect_height = buf_height (buffer wnd)\<rparr>;
          wo1 = resize_cbs (widget_list wnd) alloc wo;
          wo2 = emit (Memset (buf_data (buffer wnd))
                        (buf_stride (buffer wnd) * buf_height (buffer wnd))) wo1;
          wnd1 = wnd\<lparr>skip_damage := True\<rparr>;
          wo3 = redraw_cbs (widget_list wnd1) wo2;
          wnd2 = wnd1\<lparr>skip_damage := False\<rparr>;
          (wnd3, wo4) =
            (if \<not> buffer_attached wnd2 then
               (let ax = (if resize_edges wnd2 AND WL_SHELL_SURFACE_RESIZE_LEFT \<noteq> 0
                          then oldw - buf_width (buffer wnd2) else 0);
                    ay = (if resize_edges wnd2 AND WL_SHELL_SURFACE_RESIZE_TOP \<noteq> 0
                          then oldh - buf_height (buffer wnd2) else 0)
                in (wnd2\<lparr>buffer_attached := True, resize_edges := 0\<rparr>,
                    emit (Wl_surface_attach (w_buffer wnd2) ax ay) wo3))
             else (wnd2, wo3))
      in (wnd3, emit (Wl_surface_damage 0 0 (buf_width (buffer wnd3))
                         (buf_height (buffer wnd3))) wo4))"

text \<open>The tail of \<^verbatim>\<open>resize_window\<close>, from the assignment of \<^verbatim>\<open>wnd->buffer.data\<close> on.\<close>

definition resize_commit ::
  "wlt_window \<Rightarrow> u32 \<Rightarrow> u32 \<Rightarrow> u32 \<Rightarrow> u32 \<Rightarrow> handle option \<Rightarrow> wlt_pool option \<Rightarrow>
   world \<Rightarrow> int \<times> wlt_window \<times> world" where
  "resize_commit wnd wd ht oldw oldh old_buffer old_pool wo =
     (let wnd1 = wnd\<lparr>buffer :=
                   \<lparr>buf_data = (case pool wnd of Some p \<Rightarrow> pool_data p | None \<Rightarrow> 0),
                    buf_width = wd, buf_height = ht, buf_stride = wd * 4\<rparr>,
                   buffer_attached := False\<rparr>;
          (wnd2, wo1) = wlt_window_do_redraw wnd1 oldw oldh wo;
          wo2 = (case old_buffer of Some b \<Rightarrow> emit (Wl_buffer_destroy b) wo1 | None \<Rightarrow> wo1);
          wo3 = (case old_pool of Some p \<Rightarrow> emit (Wlt_pool_free p) wo2 | None \<Rightarrow> wo2)
      in (0, wnd2, wo3))"

text \<open>The branch of \<^verbatim>\<open>resize_window\<close> that allocates a new pool.\<close>

definition resize_new_pool ::
  "env \<Rightarrow> wlt_window \<Rightarrow> u32 \<Rightarrow> u32 \<Rightarrow> u32 \<Rightarrow> u32 \<Rightarrow> size_t \<Rightarrow> world \<Rightarrow>
   int \<times> wlt_window \<times> world" where
  "resize_new_pool e wnd wd ht oldw oldh nsize wo =
     (let old_pool = pool wnd;
          wo1 = emit (Wlt_pool_new nsize) wo
      in case wlt_pool_new (pool_new_res e) nsize of
           Inl ret \<Rightarrow> (ret, wnd\<lparr>pool := old_pool\<rparr>, wo1)
         | Inr p \<Rightarrow>
             (let wnd1 = wnd\<lparr>pool := Some p\<rparr>;
                  old_buffer = w_buffer wnd1;
                  wo2 = emit (Wl_shm_pool_create_buffer (pool_w_pool p) wd ht (wd * 4)) wo1;
                  wnd2 = wnd1\<lparr>w_buffer := create_buffer_res e\<rparr>
              in if w_buffer wnd2 = None
                 then (- ENOMEM,
                       wnd2\<lparr>w_buffer := old_buffer, pool := old_pool\<rparr>,
                       emit (Wlt_pool_free p) wo2)
                 else resize_commit wnd2 wd ht oldw oldh old_buffer old_pool wo2))"

text \<open>
  \<^verbatim>\<open>resize_window\<close>. \<^verbatim>\<open>nsize = width * height * 4\<close> is computed in \<^verbatim>\<open>unsigned int\<close> and
  then widened to \<^verbatim>\<open>size_t\<close>. The assignments to \<^verbatim>\<open>wnd->w_buffer\<close> and \<^verbatim>\<open>wnd->pool\<close> and
  their restoration on failure are written as the source has them.
\<close>

definition resize_window ::
  "env \<Rightarrow> wlt_window \<Rightarrow> u32 \<Rightarrow> u32 \<Rightarrow> world \<Rightarrow> int \<times> wlt_window \<times> world" where
  "resize_window e wnd0 width0 height0 wo0 =
     (let wo = emit (Enter_resize_window width0 height0) wo0 in
      if width0 = 0 \<or> height0 = 0 then (- EINVAL, wnd0, wo)
      else
        (case prepare_resize_cbs e (widget_list wnd0) width0 height0 (wnd0, wo) of
           (wd, ht, wnd, wo1) \<Rightarrow>
             if wd = buf_width (buffer wnd) \<and> ht = buf_height (buffer wnd)
             then (0, wnd, wo1)
             else
               (let oldw = buf_width (buffer wnd);
                    oldh = buf_height (buffer wnd);
                    nsize = (ucast (wd * ht * 4) :: size_t)
                in
                  (case pool wnd of
                     Some p \<Rightarrow>
                       if pool_size p \<ge> nsize then
                         (let old_buffer = w_buffer wnd;
                              wo2 = emit (Wl_shm_pool_create_buffer (pool_w_pool p)
                                            wd ht (wd * 4)) wo1;
                              wnd1 = wnd\<lparr>w_buffer := create_buffer_res e\<rparr>
                          in if w_buffer wnd1 = None
                             then (- ENOMEM, wnd1\<lparr>w_buffer := old_buffer\<rparr>, wo2)
                             else resize_commit wnd1 wd ht oldw oldh old_buffer None wo2)
                       else resize_new_pool e wnd wd ht oldw oldh nsize wo1
                   | None \<Rightarrow> resize_new_pool e wnd wd ht oldw oldh nsize wo1))))"

section \<open>Frame scheduling\<close>

text \<open>
  \<^verbatim>\<open>do_frame\<close>. The two \<^verbatim>\<open>if\<close> statements run one after the other: the second reads
  \<^verbatim>\<open>need_redraw\<close> as the first left it. The return value of \<^verbatim>\<open>resize_window\<close> is dropped.
\<close>

definition do_frame :: "env \<Rightarrow> wlt_window \<Rightarrow> world \<Rightarrow> wlt_window \<times> world" where
  "do_frame e wnd wo =
     (let wnd1 = wnd\<lparr>idle_pending := False\<rparr>;
          wo1 = ev_eloop_unregister_idle_cb Idle_frame wo;
          (wnd2, wo2) =
            (if need_resize wnd1 then
               (let wnd' = wnd1\<lparr>need_resize := False, need_redraw := False\<rparr>
                in snd (resize_window e wnd' (new_width wnd') (new_height wnd') wo1))
             else (wnd1, wo1))
      in if need_redraw wnd2 then
           wlt_window_do_redraw (wnd2\<lparr>need_redraw := False\<rparr>)
             (buf_width (buffer wnd2)) (buf_height (buffer wnd2)) wo2
         else (wnd2, wo2))"

definition frame_callback :: "env \<Rightarrow> wlt_window \<Rightarrow> world \<Rightarrow> wlt_window \<times> world" where
  "frame_callback e wnd wo = do_frame e (wnd\<lparr>w_frame := None, need_frame := False\<rparr>) wo"

definition idle_frame :: "env \<Rightarrow> wlt_window \<Rightarrow> world \<Rightarrow> wlt_window \<times> world" where
  "idle_frame e wnd wo = do_frame e (wnd\<lparr>need_frame := True\<rparr>) wo"

section \<open>Closing a window\<close>




section \<open>Buffer access\<close>

text \<open>
  \<^verbatim>\<open>wlt_window_get_buffer\<close>; the result is what the call leaves in \<^verbatim>\<open>*buf\<close>. All sums
  and products of the rectangle's fields are \<^verbatim>\<open>unsigned int\<close> arithmetic; the two offsets
  are widened when they are added to the pointer.
\<close>

definition wlt_window_get_buffer :: "wlt_window \<Rightarrow> wlt_rect option \<Rightarrow> wlt_shm_buffer" where
  "wlt_window_get_buffer wnd alloc =
     (let rbuf = buffer wnd in
      case alloc of
        None \<Rightarrow> rbuf
      | Some a \<Rightarrow>
          if rect_x a \<ge> buf_width rbuf \<or> rect_y a \<ge> buf_height rbuf
          then \<lparr>buf_data = 0, buf_width = 0, buf_height = 0, buf_stride = 0\<rparr>
          else
            \<lparr>buf_data = buf_data rbuf + ucast (rect_y a * buf_stride rbuf)
                          + ucast (rect_x a * 4),
             buf_width = (if rect_x a + rect_width a > buf_width rbuf
                          then buf_width rbuf - rect_x a else rect_width a),
             buf_height = (if rect_y a + rect_height a > buf_height rbuf
                           then buf_height rbuf - rect_y a else rect_height a),
             buf_stride = buf_stride rbuf\<rparr>)"

section \<open>Display connection\<close>

definition STATE_INIT :: nat where "STATE_INIT = 0"
definition STATE_RUNNING :: nat where "STATE_RUNNING = 1"
definition STATE_HUP :: nat where "STATE_HUP = 2"

text \<open>
  The keymap state is owned by the keymap library. The toolkit asks it two things:
  \<^verbatim>\<open>xkb_state_mod_name_is_active\<close> (an \<^verbatim>\<open>int\<close>, tested for being non-zero) and
  \<^verbatim>\<open>xkb_key_get_syms\<close> (the symbols of a key code).
\<close>

record xkb_st =
  mod_name_is_active :: "string \<Rightarrow> int"
  key_get_syms :: "u32 \<Rightarrow> u32 list"

definition XKB_MOD_NAME_SHIFT :: string where "XKB_MOD_NAME_SHIFT = ''Shift''"
definition XKB_MOD_NAME_CAPS :: string where "XKB_MOD_NAME_CAPS = ''Lock''"
definition XKB_MOD_NAME_CTRL :: string where "XKB_MOD_NAME_CTRL = ''Control''"
definition XKB_MOD_NAME_ALT :: string where "XKB_MOD_NAME_ALT = ''Mod1''"
definition XKB_MOD_NAME_LOGO :: string where "XKB_MOD_NAME_LOGO = ''Mod4''"
definition XKB_KEY_NoSymbol :: u32 where "XKB_KEY_NoSymbol = 0"

text \<open>
  The five modifier masks are macros of \<^verbatim>\<open>tsm_vte.h\<close>, which is not under \<^verbatim>\<open>src/\<close>: they
  are parameters. The spec calls them "five independent bits": \<open>independent_bits\<close> says
  that each mask is non-zero and that no two masks share a bit.
\<close>

record tsm_masks =
  TSM_SHIFT_MASK :: u32
  TSM_LOCK_MASK :: u32
  TSM_CONTROL_MASK :: u32
  TSM_MOD1_MASK :: u32
  TSM_MOD4_MASK :: u32

definition mask_list :: "tsm_masks \<Rightarrow> u32 list" where
  "mask_list m = [TSM_SHIFT_MASK m, TSM_LOCK_MASK m, TSM_CONTROL_MASK m,
                  TSM_MOD1_MASK m, TSM_MOD4_MASK m]"

fun disjoint_from :: "u32 \<Rightarrow> u32 list \<Rightarrow> bool" where
  "disjoint_from a [] = True"
| "disjoint_from a (b # bs) = (a AND b = 0 \<and> disjoint_from a bs)"

fun pairwise_disjoint :: "u32 list \<Rightarrow> bool" where
  "pairwise_disjoint [] = True"
| "pairwise_disjoint (a # as) = (a \<noteq> 0 \<and> disjoint_from a as \<and> pairwise_disjoint as)"

definition independent_bits :: "tsm_masks \<Rightarrow> bool" where
  "independent_bits m = pairwise_disjoint (mask_list m)"

text \<open>\<^verbatim>\<open>struct wlt_display\<close>: the fields the modelled functions read or write. A window is
  referred to by its address; \<open>window_list\<close> pairs each address with the window.\<close>

record wlt_display =
  state :: nat
  dp_fd :: "handle option"
  window_list :: "(nat \<times> wlt_window) list"
  w_comp :: "handle option"
  w_seat :: "handle option"
  w_shell :: "handle option"
  w_shm :: "handle option"
  last_serial :: u32
  pointer_enter_serial :: u32
  w_pointer :: "handle option"
  pointer_focus :: "nat option"
  w_keyboard :: "handle option"
  xkb_state :: "xkb_st option"
  keyboard_focus :: "nat option"

text \<open>The display as \<^verbatim>\<open>wlt_display_new\<close> leaves it on success: zeroed, with the
  connection's file descriptor registered.\<close>

definition wlt_display_new :: "handle \<Rightarrow> wlt_display" where
  "wlt_display_new fd =
     \<lparr>state = STATE_INIT, dp_fd = Some fd, window_list = [],
      w_comp = None, w_seat = None, w_shell = None, w_shm = None,
      last_serial = 0, pointer_enter_serial = 0, w_pointer = None,
      pointer_focus = None, w_keyboard = None, xkb_state = None,
      keyboard_focus = None\<rparr>"

subsection \<open>Input\<close>

fun pointer_leave_cbs :: "wlt_widget list \<Rightarrow> world \<Rightarrow> world" where
  "pointer_leave_cbs [] wo = wo"
| "pointer_leave_cbs (wd # ws) wo =
     pointer_leave_cbs ws
       (if pointer_leave_cb wd then emit (Cb_pointer_leave (widget_data wd)) wo else wo)"

text \<open>The widgets of the window at an address; an address that is not in the window
  list (a dangling pointer in C) has none.\<close>

definition widgets_at :: "wlt_display \<Rightarrow> nat \<Rightarrow> wlt_widget list" where
  "widgets_at d a = (case map_of (window_list d) a of Some wnd \<Rightarrow> widget_list wnd | None \<Rightarrow> [])"

definition pointer_leave :: "wlt_display \<Rightarrow> u32 \<Rightarrow> world \<Rightarrow> wlt_display \<times> world" where
  "pointer_leave d serial wo =
     (let wnd = pointer_focus d;
          d1 = d\<lparr>pointer_focus := None, last_serial := serial\<rparr>
      in case wnd of
           None \<Rightarrow> (d1, wo)
         | Some a \<Rightarrow> (d1, pointer_leave_cbs (widgets_at d1 a) wo))"

definition get_effective_modmask :: "tsm_masks \<Rightarrow> xkb_st \<Rightarrow> u32" where
  "get_effective_modmask m st =
     (let mods = 0;
          mods = (if mod_name_is_active st XKB_MOD_NAME_SHIFT \<noteq> 0
                  then mods OR TSM_SHIFT_MASK m else mods);
          mods = (if mod_name_is_active st XKB_MOD_NAME_CAPS \<noteq> 0
                  then mods OR TSM_LOCK_MASK m else mods);
          mods = (if mod_name_is_active st XKB_MOD_NAME_CTRL \<noteq> 0
                  then mods OR TSM_CONTROL_MASK m else mods);
          mods = (if mod_name_is_active st XKB_MOD_NAME_ALT \<noteq> 0
                  then mods OR TSM_MOD1_MASK m else mods);
          mods = (if mod_name_is_active st XKB_MOD_NAME_LOGO \<noteq> 0
                  then mods OR TSM_MOD4_MASK m else mods)
      in mods)"

fun keyboard_cbs :: "wlt_widget list \<Rightarrow> u32 \<Rightarrow> u32 \<Rightarrow> u32 \<Rightarrow> world \<Rightarrow> world" where
  "keyboard_cbs [] mods ksym kst wo = wo"
| "keyboard_cbs (wd # ws) mods ksym kst wo =
     keyboard_cbs ws mods ksym kst
       (if keyboard_cb wd then emit (Cb_keyboard (widget_data wd) mods ksym kst) wo else wo)"

definition keyboard_key ::
  "tsm_masks \<Rightarrow> wlt_display \<Rightarrow> u32 \<Rightarrow> u32 \<Rightarrow> u32 \<Rightarrow> u32 \<Rightarrow> world \<Rightarrow> wlt_display \<times> world" where
  "keyboard_key m d serial time key state_w wo =
     (let wnd = keyboard_focus d;
          d1 = d\<lparr>last_serial := serial\<rparr>
      in case xkb_state d1 of
           None \<Rightarrow> (d1, wo)
         | Some st \<Rightarrow>
             (let code = key + 8 in
              case wnd of
                None \<Rightarrow> (d1, wo)
              | Some a \<Rightarrow>
                  (let mods = get_effective_modmask m st;
                       syms = key_get_syms st code;
                       ksym = (if length syms = 1 then hd syms else XKB_KEY_NoSymbol)
                   in (d1, keyboard_cbs (widgets_at d1 a) mods ksym state_w wo))))"

subsection \<open>Readiness\<close>

definition WL_SEAT_CAPABILITY_POINTER :: u32 where "WL_SEAT_CAPABILITY_POINTER = 1"
definition WL_SEAT_CAPABILITY_KEYBOARD :: u32 where "WL_SEAT_CAPABILITY_KEYBOARD = 2"

definition check_ready :: "wlt_display \<Rightarrow> world \<Rightarrow> wlt_display \<times> world" where
  "check_ready d wo =
     (if state d > STATE_INIT then (d, wo)
      else if w_comp d \<noteq> None \<and> w_seat d \<noteq> None \<and> w_shell d \<noteq> None \<and> w_shm d \<noteq> None \<and>
              w_pointer d \<noteq> None \<and> w_keyboard d \<noteq> None
      then (d\<lparr>state := STATE_RUNNING\<rparr>,
            emit (Hook_call WLT_DISPLAY_READY) (emit Load_cursors wo))
      else (d, wo))"

text \<open>
  \<^verbatim>\<open>seat_capabilities\<close>; \<open>p\<close> and \<open>k\<close> are what \<^verbatim>\<open>wl_seat_get_pointer\<close> and
  \<^verbatim>\<open>wl_seat_get_keyboard\<close> return if they are called.
\<close>

definition seat_capabilities ::
  "wlt_display \<Rightarrow> u32 \<Rightarrow> handle option \<Rightarrow> handle option \<Rightarrow> world \<Rightarrow> wlt_display \<times> world" where
  "seat_capabilities d caps p k wo =
     (let d1 = (if caps AND WL_SEAT_CAPABILITY_POINTER \<noteq> 0 \<and> w_pointer d = None
                then d\<lparr>w_pointer := p\<rparr> else d);
          d2 = (if caps AND WL_SEAT_CAPABILITY_KEYBOARD \<noteq> 0 \<and> w_keyboard d1 = None
                then d1\<lparr>w_keyboard := k\<rparr> else d1)
      in check_ready d2 wo)"

text \<open>\<^verbatim>\<open>dp_global\<close>; \<open>b\<close> is what \<^verbatim>\<open>wl_display_bind\<close> returns if it is called.\<close>

definition dp_global ::
  "wlt_display \<Rightarrow> string \<Rightarrow> handle option \<Rightarrow> world \<Rightarrow> wlt_display \<times> world" where
  "dp_global d iface b wo =
     (if iface = ''wl_display'' then (d, wo)
      else if iface = ''wl_compositor'' then
        (if w_comp d \<noteq> None then (d, wo)
         else (let d1 = d\<lparr>w_comp := b\<rparr>
               in if w_comp d1 = None then (d1, wo) else check_ready d1 wo))
      else if iface = ''wl_seat'' then
        (if w_seat d \<noteq> None then (d, wo)
         else (let d1 = d\<lparr>w_seat := b\<rparr>
               in if w_seat d1 = None then (d1, wo) else check_ready d1 wo))
      else if iface = ''wl_shell'' then
        (if w_shell d \<noteq> None then (d, wo)
         else (let d1 = d\<lparr>w_shell := b\<rparr>
               in if w_shell d1 = None then (d1, wo) else check_ready d1 wo))
      else if iface = ''wl_shm'' then
        (if w_shm d \<noteq> None then (d, wo)
         else (let d1 = d\<lparr>w_shm := b\<rparr>
               in if w_shm d1 = None then (d1, wo) else check_ready d1 wo))
      else (d, wo))"

text \<open>
  \<^verbatim>\<open>dp_event\<close>; \<open>hup\<close> is the test \<^verbatim>\<open>mask & (EV_HUP | EV_ERR)\<close>. Without it the function
  lets the protocol library dispatch, which is where the other events come from.
\<close>

definition dp_event :: "wlt_display \<Rightarrow> bool \<Rightarrow> world \<Rightarrow> wlt_display \<times> world" where
  "dp_event d hup wo =
     (if hup then
        (d\<lparr>state := STATE_HUP, dp_fd := None\<rparr>,
         emit Ev_eloop_rm_fd (emit (Hook_call WLT_DISPLAY_HUP) wo))
      else (d, wo))"

text \<open>What the server and the transport can make happen to a display, and a run of them.\<close>

datatype dp_ev =
    Global string "handle option"
  | Seat_caps u32 "handle option" "handle option"
  | Fd_event bool

fun dp_step :: "dp_ev \<Rightarrow> wlt_display \<times> world \<Rightarrow> wlt_display \<times> world" where
  "dp_step (Global iface b) (d, wo) = dp_global d iface b wo"
| "dp_step (Seat_caps caps p k) (d, wo) = seat_capabilities d caps p k wo"
| "dp_step (Fd_event hup) (d, wo) = dp_event d hup wo"

fun dp_run :: "dp_ev list \<Rightarrow> wlt_display \<times> world \<Rightarrow> wlt_display \<times> world" where
  "dp_run [] s = s"
| "dp_run (ev # evs) s = dp_run evs (dp_step ev s)"

section \<open>Notions used in the statements\<close>

definition empty_world :: world where
  "empty_world = \<lparr>calls = [], idlers = []\<rparr>"

text \<open>
  What the prepare-resize callbacks of a widget list make of a proposed size, in list
  order: the size they leave, and the toolkit calls they make on the way.
\<close>

fun prepare_outcome ::
  "wlt_widget list \<Rightarrow> u32 \<times> u32 \<Rightarrow> (u32 \<times> u32) \<times> toolkit_call list" where
  "prepare_outcome [] p = (p, [])"
| "prepare_outcome (w # ws) p =
     (case prepare_resize_cb w of
        None \<Rightarrow> prepare_outcome ws p
      | Some f \<Rightarrow>
          (fst (prepare_outcome ws (fst (f p))),
           snd (f p) @ snd (prepare_outcome ws (fst (f p)))))"

definition adjusted_size :: "wlt_widget list \<Rightarrow> u32 \<Rightarrow> u32 \<Rightarrow> u32 \<times> u32" where
  "adjusted_size ws wd ht = fst (prepare_outcome ws (wd, ht))"

definition prepare_requests :: "wlt_widget list \<Rightarrow> u32 \<Rightarrow> u32 \<Rightarrow> toolkit_call list" where
  "prepare_requests ws wd ht = snd (prepare_outcome ws (wd, ht))"

text \<open>Classes of log entries.\<close>

fun is_resize_or_redraw_cb :: "call \<Rightarrow> bool" where
  "is_resize_or_redraw_cb (Cb_resize _ _) = True"
| "is_resize_or_redraw_cb (Cb_redraw _) = True"
| "is_resize_or_redraw_cb _ = False"

fun is_allocation :: "call \<Rightarrow> bool" where
  "is_allocation (Wlt_pool_new _) = True"
| "is_allocation (Wl_shm_pool_create_buffer _ _ _ _) = True"
| "is_allocation _ = False"

fun is_enter_resize :: "call \<Rightarrow> bool" where
  "is_enter_resize (Enter_resize_window _ _) = True"
| "is_enter_resize _ = False"

text \<open>The entries that the prepare-resize loop can append: its callbacks, and what a
  request for a frame does.\<close>

fun is_request_entry :: "call \<Rightarrow> bool" where
  "is_request_entry (Cb_prepare_resize _ _ _) = True"
| "is_request_entry Wl_surface_frame = True"
| "is_request_entry (Ev_register_idle _) = True"
| "is_request_entry _ = False"

text \<open>The second window is the first except, at most, for the fields that a request for
  a frame writes.\<close>

definition requests_only :: "wlt_window \<Rightarrow> wlt_window \<Rightarrow> bool" where
  "requests_only wnd wnd' =
     (close_cb wnd' = close_cb wnd \<and> close_pending wnd' = close_pending wnd \<and>
      pool wnd' = pool wnd \<and> w_surface wnd' = w_surface wnd \<and> w_buffer wnd' = w_buffer wnd \<and>
      buffer_attached wnd' = buffer_attached wnd \<and> skip_damage wnd' = skip_damage wnd \<and>
      resize_edges wnd' = resize_edges wnd \<and> buffer wnd' = buffer wnd \<and>
      widget_list wnd' = widget_list wnd)"

text \<open>The part of the log that an operation appended.\<close>

definition new_calls :: "world \<Rightarrow> world \<Rightarrow> call list" where
  "new_calls wo wo' = drop (length (calls wo)) (calls wo')"

text \<open>Whether the allocation of \<^verbatim>\<open>resize_window\<close> for an adjusted size fails: the buffer
  cannot be created, or a new pool is needed and cannot be created.\<close>

definition needs_new_pool :: "wlt_window \<Rightarrow> u32 \<Rightarrow> u32 \<Rightarrow> bool" where
  "needs_new_pool wnd wd ht =
     (case pool wnd of None \<Rightarrow> True | Some p \<Rightarrow> \<not> pool_size p \<ge> ucast (wd * ht * 4))"

definition allocation_fails :: "env \<Rightarrow> wlt_window \<Rightarrow> u32 \<Rightarrow> u32 \<Rightarrow> bool" where
  "allocation_fails e wnd wd ht =
     (create_buffer_res e = None \<or>
      (needs_new_pool wnd wd ht \<and> isl (wlt_pool_new (pool_new_res e) (ucast (wd * ht * 4)))))"

text \<open>Concrete objects on which the statements are evaluated.\<close>

definition snap_widget :: wlt_widget where
  "snap_widget =
     \<lparr>widget_data = 7, redraw_cb = True, destroy_cb = False,
      prepare_resize_cb = Some (\<lambda>p. ((fst p - 5, snd p - 3), [])), resize_cb = True,
      pointer_enter_cb = False, pointer_leave_cb = True, pointer_motion_cb = False,
      pointer_button_cb = False, keyboard_cb = True\<rparr>"

definition window_100 :: wlt_window where
  "window_100 =
     \<lparr>close_cb = True, close_pending = False,
      pool = Some \<lparr>pool_w_pool = 1, pool_size = 40000, pool_data = 4096\<rparr>,
      w_surface = 2, w_buffer = Some 3, buffer_attached = True, skip_damage = False,
      need_resize = False, need_redraw = False, need_frame = False, idle_pending = False,
      new_width = 0, new_height = 0, resize_edges = 0,
      buffer = \<lparr>buf_data = 4096, buf_width = 100, buf_height = 100, buf_stride = 400\<rparr>,
      w_frame = None, widget_list = [snap_widget]\<rparr>"

definition env_ok :: env where
  "env_ok = \<lparr>pool_new_res = Pool_created 8192 4, create_buffer_res = Some 5,
             surface_frame_res = Some 6\<rparr>"

definition env_no_buffer :: env where
  "env_no_buffer = \<lparr>pool_new_res = Pool_created 8192 4, create_buffer_res = None,
                    surface_frame_res = Some 6\<rparr>"

definition window_100_dirty :: wlt_window where
  "window_100_dirty =
     window_100\<lparr>need_resize := True, need_redraw := True, new_width := 105, new_height := 103,
                idle_pending := True, w_frame := Some 6\<rparr>"

text \<open>A window whose widget requests a redraw from its prepare-resize callback.\<close>

definition window_100_requesting :: wlt_window where
  "window_100_requesting =
     window_100_dirty\<lparr>widget_list :=
       [snap_widget\<lparr>prepare_resize_cb :=
          Some (\<lambda>p. ((fst p - 5, snd p - 3), [Call_schedule_redraw]))\<rparr>]\<rparr>"

definition xkb_shift_ctrl :: xkb_st where
  "xkb_shift_ctrl =
     \<lparr>mod_name_is_active =
        (\<lambda>n. if n = XKB_MOD_NAME_SHIFT \<or> n = XKB_MOD_NAME_CTRL then 1 else 0),
      key_get_syms = (\<lambda>c. if c = 38 then [97] else [])\<rparr>"

definition masks_x11 :: tsm_masks where
  "masks_x11 =
     \<lparr>TSM_SHIFT_MASK = 1, TSM_LOCK_MASK = 2, TSM_CONTROL_MASK = 4, TSM_MOD1_MASK = 8,
      TSM_MOD4_MASK = 64\<rparr>"

definition display_running :: wlt_display where
  "display_running =
     \<lparr>state = STATE_RUNNING, dp_fd = Some 3, window_list = [(1, window_100)],
      w_comp = Some 11, w_seat = Some 12, w_shell = Some 13, w_shm = Some 14,
      last_serial = 5, pointer_enter_serial = 0, w_pointer = Some 15,
      pointer_focus = None, w_keyboard = Some 16, xkb_state = Some xkb_shift_ctrl,
      keyboard_focus = Some 1\<rparr>"

text \<open>The modifier masks that the keyboard callbacks of a log were given.\<close>

fun keyboard_masks :: "call list \<Rightarrow> u32 list" where
  "keyboard_masks [] = []"
| "keyboard_masks (Cb_keyboard _ mods _ _ # cs) = mods # keyboard_masks cs"
| "keyboard_masks (_ # cs) = keyboard_masks cs"

text \<open>The number of integers that the interval from \<open>origin\<close> of length \<open>len\<close> has in
  common with the interval from 0 of length \<open>bound\<close>, for an origin below the bound.\<close>

definition clip_extent :: "nat \<Rightarrow> nat \<Rightarrow> nat \<Rightarrow> nat" where
  "clip_extent origin len bound = min (origin + len) bound - origin"

definition wide_rect :: wlt_rect where
  "wide_rect = \<lparr>rect_x = 1, rect_y = 0, rect_width = 4294967295, rect_height = 1\<rparr>"

text \<open>The requests of a sequence of \<^verbatim>\<open>wlt_window_set_size\<close> calls that the function
  accepts: those with a non-zero width and a non-zero height.\<close>

definition accepted :: "(u32 \<times> u32) list \<Rightarrow> (u32 \<times> u32) list" where
  "accepted reqs = filter (\<lambda>r. fst r \<noteq> 0 \<and> snd r \<noteq> 0) reqs"

definition size_requests :: "(u32 \<times> u32) list" where
  "size_requests = [(10, 10), (0, 5), (50, 200), (0, 0)]"

definition rejected_last :: "(u32 \<times> u32) list" where
  "rejected_last = [(10, 10), (0, 5)]"

text \<open>The executions of \<^verbatim>\<open>resize_window\<close> that a log records.\<close>

definition resize_entries :: "world \<Rightarrow> call list" where
  "resize_entries wo = filter is_enter_resize (calls wo)"

text \<open>A row of the committed buffer beyond the first 4 GiB of a 65536 by 16385 buffer.\<close>

definition far_row :: wlt_rect where
  "far_row = \<lparr>rect_x = 0, rect_y = 16384, rect_width = 1, rect_height = 1\<rparr>"

text \<open>
  The six readiness conditions of \<^verbatim>\<open>check_ready\<close>, when one holds in a display and which
  events make one true: a global of the right interface that binds, or a capability event
  with the device's bit for which the device is obtained.
\<close>

datatype ready_cond = Compositor | Seat | Shell | Shm | Pointer_device | Keyboard_device

fun holds :: "ready_cond \<Rightarrow> wlt_display \<Rightarrow> bool" where
  "holds Compositor d = (w_comp d \<noteq> None)"
| "holds Seat d = (w_seat d \<noteq> None)"
| "holds Shell d = (w_shell d \<noteq> None)"
| "holds Shm d = (w_shm d \<noteq> None)"
| "holds Pointer_device d = (w_pointer d \<noteq> None)"
| "holds Keyboard_device d = (w_keyboard d \<noteq> None)"

fun provides :: "ready_cond \<Rightarrow> dp_ev \<Rightarrow> bool" where
  "provides c (Global iface b) =
     (b \<noteq> None \<and>
      (case c of
         Compositor \<Rightarrow> iface = ''wl_compositor''
       | Seat \<Rightarrow> iface = ''wl_seat''
       | Shell \<Rightarrow> iface = ''wl_shell''
       | Shm \<Rightarrow> iface = ''wl_shm''
       | _ \<Rightarrow> False))"
| "provides c (Seat_caps caps p k) =
     (case c of
        Pointer_device \<Rightarrow> caps AND WL_SEAT_CAPABILITY_POINTER \<noteq> 0 \<and> p \<noteq> None
      | Keyboard_device \<Rightarrow> caps AND WL_SEAT_CAPABILITY_KEYBOARD \<noteq> 0 \<and> k \<noteq> None
      | _ \<Rightarrow> False)"
| "provides c (Fd_event hup) = False"

definition all_conds :: "ready_cond list" where
  "all_conds = [Compositor, Seat, Shell, Shm, Pointer_device, Keyboard_device]"

definition all_ready :: "wlt_display \<Rightarrow> bool" where
  "all_ready d = list_all (\<lambda>c. holds c d) all_conds"

definition all_provided :: "dp_ev list \<Rightarrow> bool" where
  "all_provided es = list_all (\<lambda>c. list_ex (provides c) es) all_conds"

definition hangup_free :: "dp_ev list \<Rightarrow> bool" where
  "hangup_free es = list_all (\<lambda>ev. ev \<noteq> Fd_event True) es"

text \<open>How often the READY event was broadcast to the listeners.\<close>

definition ready_broadcasts :: "world \<Rightarrow> nat" where
  "ready_broadcasts wo = count_list (calls wo) (Hook_call WLT_DISPLAY_READY)"

text \<open>One event for each condition.\<close>

definition six_events :: "dp_ev list" where
  "six_events =
     [Global ''wl_compositor'' (Some 11), Global ''wl_seat'' (Some 12),
      Global ''wl_shell'' (Some 13), Global ''wl_shm'' (Some 14),
      Seat_caps 1 (Some 15) None, Seat_caps 2 None (Some 16)]"

text \<open>The invariant of the readiness state machine, and what is left of it between the
  assignment of a handle and the call of \<^verbatim>\<open>check_ready\<close>.\<close>

definition pre_inv :: "wlt_display \<times> world \<Rightarrow> bool" where
  "pre_inv s =
     (state (fst s) = STATE_INIT \<and> ready_broadcasts (snd s) = 0 \<or>
      state (fst s) = STATE_RUNNING \<and> all_ready (fst s) \<and> ready_broadcasts (snd s) = 1 \<or>
      state (fst s) = STATE_HUP \<and> ready_broadcasts (snd s) \<le> 1)"

definition ready_inv :: "wlt_display \<times> world \<Rightarrow> bool" where
  "ready_inv s = (pre_inv s \<and> (state (fst s) = STATE_INIT \<longrightarrow> \<not> all_ready (fst s)))"

section \<open>Properties\<close>


subsection \<open>The prepare-resize loop\<close>

lemma requests_only_refl: "requests_only wnd wnd"
  by (simp add: requests_only_def)

lemma requests_only_trans:
  "requests_only wnd wnd1 \<Longrightarrow> requests_only wnd1 wnd2 \<Longrightarrow> requests_only wnd wnd2"
  by (simp add: requests_only_def)

lemma request_entries_harmless:
  assumes "list_all is_request_entry cs"
  shows "filter is_allocation cs = []" and "filter is_resize_or_redraw_cb cs = []"
    and "filter is_enter_resize cs = []"
proof -
  have "is_request_entry c \<Longrightarrow>
        \<not> is_allocation c \<and> \<not> is_resize_or_redraw_cb c \<and> \<not> is_enter_resize c" for c
    by (cases c) simp_all
  then show "filter is_allocation cs = []" and "filter is_resize_or_redraw_cb cs = []"
    and "filter is_enter_resize cs = []"
    using assms by (auto simp: filter_empty_conv list_all_iff)
qed

lemma schedule_frame_requests:
  "requests_only wnd (fst (schedule_frame e wnd wo)) \<and>
   (\<exists>cs. calls (snd (schedule_frame e wnd wo)) = calls wo @ cs \<and> list_all is_request_entry cs)"
proof (cases "w_frame wnd = None \<and> \<not> need_frame wnd \<and> \<not> idle_pending wnd")
  case True
  then show ?thesis
    by (intro conjI exI [of _ "[Ev_register_idle Idle_frame, Wl_surface_frame]"])
       (simp_all add: schedule_frame_def requests_only_def ev_eloop_register_idle_cb_def emit_def)
next
  case False
  then show ?thesis
    by (intro conjI exI [of _ "[]"]) (auto simp: schedule_frame_def requests_only_def)
qed

lemma toolkit_call_requests:
  "requests_only wnd (fst (toolkit_calls e [c] (wnd, wo))) \<and>
   (\<exists>cs. calls (snd (toolkit_calls e [c] (wnd, wo))) = calls wo @ cs \<and>
         list_all is_request_entry cs)"
proof (cases c)
  case Call_schedule_redraw
  show ?thesis
    using schedule_frame_requests [of "wnd\<lparr>need_redraw := True\<rparr>" e wo]
    by (simp add: Call_schedule_redraw wlt_window_schedule_redraw_def requests_only_def)
next
  case (Call_set_size wd ht)
  show ?thesis
  proof (cases "wd = 0 \<or> ht = 0")
    case True
    then show ?thesis
      by (intro conjI exI [of _ "[]"])
         (auto simp: Call_set_size wlt_window_set_size_def requests_only_def)
  next
    case False
    then show ?thesis
      using schedule_frame_requests
        [of "wnd\<lparr>new_width := wd, new_height := ht, need_resize := True\<rparr>" e wo]
      by (simp add: Call_set_size wlt_window_set_size_def requests_only_def)
  qed
qed

lemma toolkit_calls_step:
  "toolkit_calls e (c # cs) s = toolkit_calls e cs (toolkit_calls e [c] s)"
  by (cases c) simp_all

lemma toolkit_calls_requests:
  "requests_only wnd (fst (toolkit_calls e tcs (wnd, wo))) \<and>
   (\<exists>cs. calls (snd (toolkit_calls e tcs (wnd, wo))) = calls wo @ cs \<and>
         list_all is_request_entry cs)"
proof (induction tcs arbitrary: wnd wo)
  case Nil
  then show ?case by (intro conjI exI [of _ "[]"]) (simp_all add: requests_only_refl)
next
  case (Cons c tcs)
  obtain wnd1 wo1 where s1: "toolkit_calls e [c] (wnd, wo) = (wnd1, wo1)"
    by (cases "toolkit_calls e [c] (wnd, wo)") auto
  from toolkit_call_requests [of wnd e c wo] obtain c1 where
    one: "requests_only wnd wnd1" "calls wo1 = calls wo @ c1" "list_all is_request_entry c1"
    by (auto simp: s1)
  from Cons.IH [where wnd = wnd1 and wo = wo1] obtain c2 where
    rest: "requests_only wnd1 (fst (toolkit_calls e tcs (wnd1, wo1)))"
      "calls (snd (toolkit_calls e tcs (wnd1, wo1))) = calls wo1 @ c2"
      "list_all is_request_entry c2"
    by auto
  have "toolkit_calls e (c # tcs) (wnd, wo) = toolkit_calls e tcs (wnd1, wo1)"
    using toolkit_calls_step [of e c tcs "(wnd, wo)"] s1 by simp
  then show ?case
    using one rest requests_only_trans [OF one(1) rest(1)]
    by (intro conjI exI [of _ "c1 @ c2"]) simp_all
qed

lemma prepare_resize_cbs_size:
  "fst (prepare_resize_cbs e ws wd ht s) = fst (adjusted_size ws wd ht) \<and>
   fst (snd (prepare_resize_cbs e ws wd ht s)) = snd (adjusted_size ws wd ht)"
  unfolding adjusted_size_def
  by (induction ws arbitrary: wd ht s) (auto split: option.splits)

lemma prepare_resize_cbs_requests:
  "requests_only wnd (fst (snd (snd (prepare_resize_cbs e ws wd ht (wnd, wo))))) \<and>
   (\<exists>cs. calls (snd (snd (snd (prepare_resize_cbs e ws wd ht (wnd, wo))))) = calls wo @ cs \<and>
         list_all is_request_entry cs)"
proof (induction ws arbitrary: wd ht wnd wo)
  case Nil
  then show ?case by (intro conjI exI [of _ "[]"]) (simp_all add: requests_only_refl)
next
  case (Cons w ws)
  show ?case
  proof (cases "prepare_resize_cb w")
    case None
    then show ?thesis using Cons.IH [where wd = wd and ht = ht and wnd = wnd and wo = wo] by simp
  next
    case (Some f)
    let ?wo = "emit (Cb_prepare_resize (widget_data w) wd ht) wo"
    obtain wnd1 wo1 where s1: "toolkit_calls e (snd (f (wd, ht))) (wnd, ?wo) = (wnd1, wo1)"
      by (cases "toolkit_calls e (snd (f (wd, ht))) (wnd, ?wo)") auto
    from toolkit_calls_requests [of wnd e "snd (f (wd, ht))" ?wo] obtain c1 where
      one: "requests_only wnd wnd1" "calls wo1 = calls ?wo @ c1" "list_all is_request_entry c1"
      by (auto simp: s1)
    from Cons.IH [where wd = "fst (fst (f (wd, ht)))" and ht = "snd (fst (f (wd, ht)))"
        and wnd = wnd1 and wo = wo1] obtain c2 where
      rest: "requests_only wnd1 (fst (snd (snd (prepare_resize_cbs e ws
               (fst (fst (f (wd, ht)))) (snd (fst (f (wd, ht)))) (wnd1, wo1)))))"
        "calls (snd (snd (snd (prepare_resize_cbs e ws
               (fst (fst (f (wd, ht)))) (snd (fst (f (wd, ht)))) (wnd1, wo1))))) = calls wo1 @ c2"
        "list_all is_request_entry c2"
      by auto
    show ?thesis
      using Some s1 one rest requests_only_trans [OF one(1) rest(1)]
      by (intro conjI exI [of _ "Cb_prepare_resize (widget_data w) wd ht # c1 @ c2"])
         (simp_all add: emit_def)
  qed
qed

lemma prepare_resize_cbs_silent:
  assumes "prepare_requests ws wd ht = []"
  shows "\<exists>cs. snd (snd (prepare_resize_cbs e ws wd ht (wnd, wo))) =
              (wnd, wo\<lparr>calls := calls wo @ cs\<rparr>)"
  using assms unfolding prepare_requests_def
proof (induction ws arbitrary: wd ht wo)
  case Nil
  then show ?case by (intro exI [of _ "[]"]) simp
next
  case (Cons w ws)
  show ?case
  proof (cases "prepare_resize_cb w")
    case None
    then show ?thesis using Cons by simp
  next
    case (Some f)
    let ?wo = "emit (Cb_prepare_resize (widget_data w) wd ht) wo"
    from Cons.prems Some have nil: "snd (f (wd, ht)) = []"
      and rest: "snd (prepare_outcome ws (fst (fst (f (wd, ht))), snd (fst (f (wd, ht))))) = []"
      by simp_all
    from Cons.IH [OF rest, where wo = ?wo] obtain cs where
      "snd (snd (prepare_resize_cbs e ws (fst (fst (f (wd, ht)))) (snd (fst (f (wd, ht))))
         (wnd, ?wo))) = (wnd, ?wo\<lparr>calls := calls ?wo @ cs\<rparr>)"
      by blast
    then show ?thesis
      using Some nil
      by (intro exI [of _ "Cb_prepare_resize (widget_data w) wd ht # cs"]) (simp add: emit_def)
  qed
qed

lemma requests_only_equal:
  assumes "requests_only wnd wnd'"
  shows "buffer wnd' = buffer wnd" and "pool wnd' = pool wnd" and "w_buffer wnd' = w_buffer wnd"
    and "widget_list wnd' = widget_list wnd"
  using assms by (simp_all add: requests_only_def)

subsection \<open>Resizing to the committed size\<close>

lemma resize_window_unchanged_size:
  assumes "width0 = 0 \<or> height0 = 0 \<or>
           adjusted_size (widget_list wnd) width0 height0 =
             (buf_width (buffer wnd), buf_height (buffer wnd))"
  shows "fst (resize_window e wnd width0 height0 wo) =
           (if width0 = 0 \<or> height0 = 0 then - EINVAL else 0) \<and>
         requests_only wnd (fst (snd (resize_window e wnd width0 height0 wo))) \<and>
         (\<exists>cs. calls (snd (snd (resize_window e wnd width0 height0 wo))) = calls wo @ cs \<and>
               filter is_allocation cs = [] \<and> filter is_resize_or_redraw_cb cs = []) \<and>
         (width0 = 0 \<or> height0 = 0 \<or> prepare_requests (widget_list wnd) width0 height0 = [] \<longrightarrow>
            fst (snd (resize_window e wnd width0 height0 wo)) = wnd \<and>
            idlers (snd (snd (resize_window e wnd width0 height0 wo))) = idlers wo)"
proof (cases "width0 = 0 \<or> height0 = 0")
  case True
  then show ?thesis
    by (intro conjI exI [of _ "[Enter_resize_window width0 height0]"])
       (auto simp: resize_window_def Let_def emit_def requests_only_refl)
next
  case False
  let ?wo = "emit (Enter_resize_window width0 height0) wo"
  let ?p = "prepare_resize_cbs e (widget_list wnd) width0 height0 (wnd, ?wo)"
  from False assms
  have adj: "adjusted_size (widget_list wnd) width0 height0 =
             (buf_width (buffer wnd), buf_height (buffer wnd))"
    by blast
  have sz: "fst ?p = buf_width (buffer wnd)" "fst (snd ?p) = buf_height (buffer wnd)"
    using prepare_resize_cbs_size [of e "widget_list wnd" width0 height0 "(wnd, ?wo)"] adj
    by simp_all
  obtain cs where ro: "requests_only wnd (fst (snd (snd ?p)))"
    and cs: "calls (snd (snd (snd ?p))) = calls ?wo @ cs" "list_all is_request_entry cs"
    using prepare_resize_cbs_requests [of wnd e "widget_list wnd" width0 height0 ?wo] by blast
  have r: "resize_window e wnd width0 height0 wo = (0, snd (snd ?p))"
    using False sz requests_only_equal(1) [OF ro]
    by (simp add: resize_window_def Let_def case_prod_beta)
  have silent: "fst (snd (snd ?p)) = wnd \<and> idlers (snd (snd (snd ?p))) = idlers wo"
    if "prepare_requests (widget_list wnd) width0 height0 = []"
    using prepare_resize_cbs_silent [OF that, of e wnd ?wo] by (auto simp: emit_def)
  show ?thesis
    using False r ro cs(1) request_entries_harmless(1,2) [OF cs(2)] silent
    by (intro conjI exI [of _ "Enter_resize_window width0 height0 # cs"])
       (simp_all add: emit_def)
qed

lemma new_calls_append [simp]: "new_calls wo (wo\<lparr>calls := calls wo @ cs\<rparr>) = cs"
  by (simp add: new_calls_def)

lemma appended_calls:
  assumes "calls wo' = calls wo @ cs"
  shows "new_calls wo wo' = cs" and "take (length (calls wo)) (calls wo') = calls wo"
  using assms by (simp_all add: new_calls_def)

text \<open>
  Claim C5. When \<^verbatim>\<open>resize_window\<close> is called with a non-zero target that the widgets'
  prepare-resize callbacks turn into the committed buffer width and height, it returns 0
  and leaves the buffer view, the buffer handle and the pool as they were; it appends to
  the log only, and what it appends contains no pool or buffer allocation and no widget
  resize or redraw callback. If the prepare-resize callbacks make no call back into the
  toolkit, the whole window record and the idle callbacks are as before. (All callers
  pass a non-zero target; a zero one is rejected with \<^verbatim>\<open>-EINVAL\<close> before the widgets are
  asked.)
\<close>

theorem resize_window_same_size_is_noop:
  assumes "width0 \<noteq> 0" and "height0 \<noteq> 0"
    and "adjusted_size (widget_list wnd) width0 height0 =
           (buf_width (buffer wnd), buf_height (buffer wnd))"
  shows "case resize_window e wnd width0 height0 wo of (ret, wnd', wo') \<Rightarrow>
           ret = 0 \<and> buffer wnd' = buffer wnd \<and> w_buffer wnd' = w_buffer wnd \<and>
           pool wnd' = pool wnd \<and>
           (prepare_requests (widget_list wnd) width0 height0 = [] \<longrightarrow>
              wnd' = wnd \<and> idlers wo' = idlers wo) \<and>
           take (length (calls wo)) (calls wo') = calls wo \<and>
           filter is_allocation (new_calls wo wo') = [] \<and>
           filter is_resize_or_redraw_cb (new_calls wo wo') = []"
proof -
  from resize_window_unchanged_size [where ?width0.0 = width0 and ?height0.0 = height0
      and wnd = wnd and e = e and wo = wo] assms
  obtain cs where r: "fst (resize_window e wnd width0 height0 wo) = 0"
    "requests_only wnd (fst (snd (resize_window e wnd width0 height0 wo)))"
    "calls (snd (snd (resize_window e wnd width0 height0 wo))) = calls wo @ cs"
    "filter is_allocation cs = []" "filter is_resize_or_redraw_cb cs = []"
    "prepare_requests (widget_list wnd) width0 height0 = [] \<longrightarrow>
       fst (snd (resize_window e wnd width0 height0 wo)) = wnd \<and>
       idlers (snd (snd (resize_window e wnd width0 height0 wo))) = idlers wo"
    by auto
  show ?thesis
    using r(1) requests_only_equal [OF r(2)] appended_calls [OF r(3)] r(4-6)
    by (simp add: case_prod_beta)
qed

theorem resize_window_same_size_is_noop_witness:
  "case resize_window env_ok window_100 105 103 empty_world of (ret, wnd', wo') \<Rightarrow>
     ret = 0 \<and> wnd' = window_100 \<and> idlers wo' = idlers empty_world \<and>
     take (length (calls empty_world)) (calls wo') = calls empty_world \<and>
     filter is_allocation (new_calls empty_world wo') = [] \<and>
     filter is_resize_or_redraw_cb (new_calls empty_world wo') = []"
  using resize_window_same_size_is_noop
          [where ?width0.0 = 105 and ?height0.0 = 103 and wnd = window_100 and e = env_ok
             and wo = empty_world]
  by (simp add: adjusted_size_def prepare_requests_def window_100_def snap_widget_def
        empty_world_def case_prod_beta)

text \<open>
  Claim C10, amended. If \<^verbatim>\<open>need_resize\<close> and \<^verbatim>\<open>need_redraw\<close> are both set when \<^verbatim>\<open>do_frame\<close>
  runs, the widget-adjusted resize target equals the committed buffer size, and no
  prepare-resize callback calls back into the toolkit while it runs, then the frame
  clears both flags, keeps the buffer, and invokes no widget resize or redraw callback:
  the redraw request is dropped. As stated, without the condition on the callbacks, the
  claim fails: a prepare-resize callback that calls \<^verbatim>\<open>wlt_window_schedule_redraw\<close> sets
  \<^verbatim>\<open>need_redraw\<close> again inside the resize that changes nothing, and the second test of
  \<^verbatim>\<open>do_frame\<close> then runs the redraw.
\<close>

theorem do_frame_same_size_drops_redraw:
  assumes "need_resize wnd" and "need_redraw wnd"
    and "adjusted_size (widget_list wnd) (new_width wnd) (new_height wnd) =
           (buf_width (buffer wnd), buf_height (buffer wnd))"
    and "prepare_requests (widget_list wnd) (new_width wnd) (new_height wnd) = []"
  shows "case do_frame e wnd wo of (wnd', wo') \<Rightarrow>
           wnd' = wnd\<lparr>idle_pending := False, need_resize := False, need_redraw := False\<rparr> \<and>
           \<not> need_resize wnd' \<and> \<not> need_redraw wnd' \<and> buffer wnd' = buffer wnd \<and>
           take (length (calls wo)) (calls wo') = calls wo \<and>
           filter is_resize_or_redraw_cb (new_calls wo wo') = []"
proof -
  let ?wnd = "wnd\<lparr>idle_pending := False, need_resize := False, need_redraw := False\<rparr>"
  let ?wo = "ev_eloop_unregister_idle_cb Idle_frame wo"
  let ?r = "resize_window e ?wnd (new_width ?wnd) (new_height ?wnd) ?wo"
  have "new_width ?wnd = 0 \<or> new_height ?wnd = 0 \<or>
        adjusted_size (widget_list ?wnd) (new_width ?wnd) (new_height ?wnd) =
          (buf_width (buffer ?wnd), buf_height (buffer ?wnd))"
    using assms(3) by simp
  from resize_window_unchanged_size [OF this, where e = e and wo = ?wo] assms(4)
  obtain cs where r: "fst (snd ?r) = ?wnd" "calls (snd (snd ?r)) = calls ?wo @ cs"
    "filter is_resize_or_redraw_cb cs = []"
    by auto
  have "do_frame e wnd wo = (?wnd, snd (snd ?r))"
    using assms(1) r(1) by (simp add: do_frame_def Let_def case_prod_beta)
  moreover have "calls (snd (snd ?r)) = calls wo @ Ev_unregister_idle Idle_frame # cs"
    using r(2) by (simp add: ev_eloop_unregister_idle_cb_def emit_def)
  ultimately show ?thesis
    using r(3) by (simp add: new_calls_def)
qed

theorem do_frame_same_size_drops_redraw_witness:
  "case do_frame env_ok window_100_dirty empty_world of (wnd', wo') \<Rightarrow>
     wnd' = window_100_dirty\<lparr>idle_pending := False, need_resize := False,
                              need_redraw := False\<rparr> \<and>
     \<not> need_resize wnd' \<and> \<not> need_redraw wnd' \<and> buffer wnd' = buffer window_100_dirty \<and>
     take (length (calls empty_world)) (calls wo') = calls empty_world \<and>
     filter is_resize_or_redraw_cb (new_calls empty_world wo') = []"
  using do_frame_same_size_drops_redraw
          [where wnd = window_100_dirty and e = env_ok and wo = empty_world]
  by (simp add: adjusted_size_def prepare_requests_def window_100_dirty_def window_100_def
        snap_widget_def empty_world_def)

theorem do_frame_same_size_redraws_counterexample:
  "need_resize window_100_requesting \<and> need_redraw window_100_requesting \<and>
   adjusted_size (widget_list window_100_requesting) (new_width window_100_requesting)
     (new_height window_100_requesting) =
     (buf_width (buffer window_100_requesting), buf_height (buffer window_100_requesting)) \<and>
   filter is_resize_or_redraw_cb
     (new_calls empty_world (snd (do_frame env_ok window_100_requesting empty_world))) =
     [Cb_resize 7 \<lparr>rect_x = 0, rect_y = 0, rect_width = 100, rect_height = 100\<rparr>, Cb_redraw 7]"
  by (simp add: window_100_requesting_def window_100_dirty_def window_100_def snap_widget_def
        adjusted_size_def empty_world_def do_frame_def resize_window_def Let_def emit_def
        ev_eloop_unregister_idle_cb_def wlt_window_schedule_redraw_def schedule_frame_def
        wlt_window_do_redraw_def new_calls_def)

subsection \<open>A resize whose allocation fails\<close>

lemma wlt_pool_new_negative: "wlt_pool_new oc sz = Inl r \<Longrightarrow> r < 0"
  by (auto simp: wlt_pool_new_def EFAULT_def ENOMEM_def split: pool_new_outcome.splits)

lemma resize_commit_returns_0:
  "resize_commit wnd wd ht ow oh ob op wo = (ret, wnd', wo') \<Longrightarrow> ret = 0"
  by (simp add: resize_commit_def Let_def split: prod.splits)

lemma resize_window_error_keeps_window:
  assumes "resize_window e wnd w h wo = (ret, wnd', wo')" and "ret \<noteq> 0"
  shows "ret < 0 \<and>
         wnd' = (if w = 0 \<or> h = 0 then wnd
                 else fst (snd (snd (prepare_resize_cbs e (widget_list wnd) w h
                        (wnd, emit (Enter_resize_window w h) wo)))))"
  using assms
  by (auto simp: resize_window_def resize_new_pool_def Let_def EINVAL_def ENOMEM_def
       case_prod_beta
       split: if_splits option.splits sum.splits
       dest: wlt_pool_new_negative resize_commit_returns_0)

lemma resize_window_allocation_fails:
  assumes "width0 \<noteq> 0" and "height0 \<noteq> 0"
    and "adjusted_size (widget_list wnd) width0 height0 = (wd, ht)"
    and "(wd, ht) \<noteq> (buf_width (buffer wnd), buf_height (buffer wnd))"
    and "allocation_fails e wnd wd ht"
  shows "fst (resize_window e wnd width0 height0 wo) \<noteq> 0"
proof -
  let ?p = "prepare_resize_cbs e (widget_list wnd) width0 height0
              (wnd, emit (Enter_resize_window width0 height0) wo)"
  have sz: "fst ?p = wd" "fst (snd ?p) = ht"
    using prepare_resize_cbs_size [of e "widget_list wnd" width0 height0] assms(3) by simp_all
  have ro: "requests_only wnd (fst (snd (snd ?p)))"
    using prepare_resize_cbs_requests by blast
  show ?thesis
    using assms(1,2,4,5) sz requests_only_equal(1,2) [OF ro]
    by (auto simp: resize_window_def resize_new_pool_def Let_def case_prod_beta
          allocation_fails_def needs_new_pool_def ENOMEM_def resize_commit_def
          split: option.splits sum.splits dest: wlt_pool_new_negative)
qed

text \<open>
  Claim C3. If \<^verbatim>\<open>resize_window\<close> gets as far as allocating (non-zero target, adjusted size
  different from the committed one) and the allocation fails, because the buffer cannot
  be created or because a new pool is needed and cannot be created, then it returns a
  negative error and the buffer handle, the pool and the committed buffer view are as
  before the call; if the prepare-resize callbacks make no call back into the toolkit,
  the whole window record is.
\<close>

theorem resize_window_failure_keeps_committed_state:
  assumes "width0 \<noteq> 0" and "height0 \<noteq> 0"
    and "adjusted_size (widget_list wnd) width0 height0 = (wd, ht)"
    and "(wd, ht) \<noteq> (buf_width (buffer wnd), buf_height (buffer wnd))"
    and "allocation_fails e wnd wd ht"
  shows "case resize_window e wnd width0 height0 wo of (ret, wnd', wo') \<Rightarrow>
           ret < 0 \<and> w_buffer wnd' = w_buffer wnd \<and> pool wnd' = pool wnd \<and>
           buffer wnd' = buffer wnd \<and>
           (prepare_requests (widget_list wnd) width0 height0 = [] \<longrightarrow> wnd' = wnd)"
proof -
  let ?wo = "emit (Enter_resize_window width0 height0) wo"
  let ?p = "prepare_resize_cbs e (widget_list wnd) width0 height0 (wnd, ?wo)"
  obtain ret wnd' wo' where r: "resize_window e wnd width0 height0 wo = (ret, wnd', wo')"
    by (cases "resize_window e wnd width0 height0 wo") auto
  have "ret \<noteq> 0"
    using resize_window_allocation_fails [OF assms, of wo] r by simp
  then have neg: "ret < 0" and w: "wnd' = fst (snd (snd ?p))"
    using resize_window_error_keeps_window [OF r] assms(1,2) by simp_all
  have ro: "requests_only wnd wnd'"
    unfolding w using prepare_resize_cbs_requests by blast
  have "wnd' = wnd" if "prepare_requests (widget_list wnd) width0 height0 = []"
    unfolding w using prepare_resize_cbs_silent [OF that, of e wnd ?wo] by auto
  then show ?thesis
    using r neg requests_only_equal [OF ro] by simp
qed

theorem resize_window_failure_keeps_committed_state_witness:
  "case resize_window env_no_buffer window_100 50 200 empty_world of (ret, wnd', wo') \<Rightarrow>
     ret < 0 \<and> w_buffer wnd' = w_buffer window_100 \<and> pool wnd' = pool window_100 \<and>
     buffer wnd' = buffer window_100 \<and> wnd' = window_100"
  using resize_window_failure_keeps_committed_state
          [where ?width0.0 = 50 and ?height0.0 = 200 and wnd = window_100 and wd = 45
             and ht = 197 and e = env_no_buffer and wo = empty_world]
  by (simp add: adjusted_size_def prepare_requests_def window_100_def snap_widget_def
        empty_world_def allocation_fails_def env_no_buffer_def case_prod_beta)

subsection \<open>Sub-rectangles of the committed buffer\<close>

text \<open>
  Claim C6, at a failing input. The committed buffer is 100 by 100 and the rectangle
  starts at x = 1 with width \<^verbatim>\<open>UINT_MAX\<close>. Its intersection with the committed extent is
  99 wide, but \<^verbatim>\<open>alloc->x + alloc->width\<close> wraps around to 0, the test against the
  committed width fails, and the returned buffer claims a width of 4294967295.
\<close>

theorem get_buffer_width_wraps:
  "rect_x wide_rect < buf_width (buffer window_100) \<and>
   unat (buf_width (wlt_window_get_buffer window_100 (Some wide_rect))) = 4294967295 \<and>
   clip_extent (unat (rect_x wide_rect)) (unat (rect_width wide_rect))
     (unat (buf_width (buffer window_100))) = 99"
  by (simp add: wlt_window_get_buffer_def window_100_def wide_rect_def clip_extent_def Let_def
        word_le_nat_alt word_less_nat_alt)

text \<open>Where neither sum wraps around, the returned extent is the intersection, and a
  rectangle whose origin is not inside the committed extent gets the all-zero buffer.\<close>

lemma get_buffer_clips_without_wrap:
  assumes "unat (rect_x a) + unat (rect_width a) < 2 ^ 32"
    and "unat (rect_y a) + unat (rect_height a) < 2 ^ 32"
    and "rect_x a < buf_width (buffer wnd)" and "rect_y a < buf_height (buffer wnd)"
  shows "unat (buf_width (wlt_window_get_buffer wnd (Some a))) =
           clip_extent (unat (rect_x a)) (unat (rect_width a)) (unat (buf_width (buffer wnd)))"
    and "unat (buf_height (wlt_window_get_buffer wnd (Some a))) =
           clip_extent (unat (rect_y a)) (unat (rect_height a)) (unat (buf_height (buffer wnd)))"
  using assms
  by (simp_all add: wlt_window_get_buffer_def Let_def clip_extent_def word_less_nat_alt
        word_le_nat_alt unat_add_lem [THEN iffD1] unat_sub not_le)

lemma get_buffer_outside_is_zero:
  assumes "buf_width (buffer wnd) \<le> rect_x a \<or> buf_height (buffer wnd) \<le> rect_y a"
  shows "wlt_window_get_buffer wnd (Some a) =
           \<lparr>buf_data = 0, buf_width = 0, buf_height = 0, buf_stride = 0\<rparr>"
  using assms by (auto simp: wlt_window_get_buffer_def Let_def)

lemma wlt_window_do_redraw_buffer:
  "buffer (fst (wlt_window_do_redraw wnd ow oh wo)) = buffer wnd"
  by (simp add: wlt_window_do_redraw_def Let_def split: prod.splits if_splits)

lemma resize_commit_buffer:
  "buf_width (buffer (fst (snd (resize_commit wnd wd ht ow oh ob op wo)))) = wd \<and>
   buf_height (buffer (fst (snd (resize_commit wnd wd ht ow oh ob op wo)))) = ht \<and>
   buf_stride (buffer (fst (snd (resize_commit wnd wd ht ow oh ob op wo)))) = wd * 4"
  using wlt_window_do_redraw_buffer
  by (simp add: resize_commit_def Let_def case_prod_beta)

lemma resize_commit_result:
  assumes "resize_commit wnd wd ht ow oh ob op wo = (ret, wnd', wo')"
  shows "ret = 0 \<and> buf_width (buffer wnd') = wd \<and> buf_height (buffer wnd') = ht \<and>
         buf_stride (buffer wnd') = wd * 4"
  using resize_commit_buffer [of wnd wd ht ow oh ob op wo] resize_commit_returns_0 [OF assms] assms
  by simp

lemma resize_window_stride:
  assumes "resize_window e wnd w h wo = (ret, wnd', wo')"
  shows "buffer wnd' = buffer wnd \<or>
         (ret = 0 \<and> buf_stride (buffer wnd') = 4 * buf_width (buffer wnd') \<and>
          (buf_width (buffer wnd'), buf_height (buffer wnd')) = adjusted_size (widget_list wnd) w h)"
proof -
  let ?p = "prepare_resize_cbs e (widget_list wnd) w h (wnd, emit (Enter_resize_window w h) wo)"
  have sz: "fst ?p = fst (adjusted_size (widget_list wnd) w h)"
    "fst (snd ?p) = snd (adjusted_size (widget_list wnd) w h)"
    using prepare_resize_cbs_size [of e "widget_list wnd" w h] by simp_all
  have ro: "requests_only wnd (fst (snd (snd ?p)))"
    using prepare_resize_cbs_requests by blast
  show ?thesis
    using assms requests_only_equal(1) [OF ro]
    by (auto simp: resize_window_def resize_new_pool_def Let_def case_prod_beta sz
        split: if_splits option.splits sum.splits dest!: resize_commit_result)
qed

lemma get_buffer_offsets_exact:
  fixes xx yy :: u32
  assumes "unat s = 4 * unat w" and "unat h * unat s < 2 ^ 32" and "xx < w" and "yy < h"
  shows "(ucast (yy * s) :: ptr) + ucast (xx * 4) = word_of_nat (unat yy * unat s + unat xx * 4)"
proof -
  have "unat yy \<le> unat h"
    using assms(4) by (simp add: word_less_nat_alt)
  then have "unat yy * unat s \<le> unat h * unat s"
    by (rule mult_le_mono1)
  then have "unat yy * unat s < 2 ^ 32"
    using assms(2) by (rule le_less_trans)
  then have "unat yy * unat s < 2 ^ LENGTH(32)"
    by simp
  then have y: "unat (yy * s) = unat yy * unat s"
    by (simp only: unat_mult_lem)
  have "unat s < 2 ^ 32"
    using unsigned_less [of s] by simp
  then have "unat xx * unat (4 :: u32) < 2 ^ LENGTH(32)"
    using assms(1,3) by (simp add: word_less_nat_alt)
  then have x: "unat (xx * 4) = unat xx * unat (4 :: u32)"
    by (simp only: unat_mult_lem)
  have "(ucast (yy * s) :: ptr) + ucast (xx * 4) =
        word_of_nat (unat (yy * s)) + word_of_nat (unat (xx * 4))"
    by simp
  also have "\<dots> = word_of_nat (unat yy * unat s + unat xx * 4)"
    using x y by simp
  finally show ?thesis .
qed

text \<open>
  In the source's own arithmetic the pixel offset law and the stride law hold. For a
  rectangle whose origin is inside the committed buffer, \<^verbatim>\<open>wlt_window_get_buffer\<close> returns the committed
  stride and the data pointer \<^verbatim>\<open>base + y * stride + x * 4\<close>, with the two products computed
  in \<^verbatim>\<open>unsigned int\<close>; for a buffer whose stride is four times its width and whose
  \<^verbatim>\<open>height * stride\<close> bytes fit into 32 bits the products do not wrap, and the offset is
  the integer \<open>y * stride + x * 4\<close>. A call of \<^verbatim>\<open>resize_window\<close> that returns 0 leaves a
  committed stride of \<^verbatim>\<open>width * 4\<close>, computed in \<^verbatim>\<open>unsigned int\<close>.
\<close>

lemma get_buffer_pixel_offset_modulo_wrap:
  "(rect_x a < buf_width (buffer wnd) \<and> rect_y a < buf_height (buffer wnd) \<longrightarrow>
      buf_stride (wlt_window_get_buffer wnd (Some a)) = buf_stride (buffer wnd) \<and>
      buf_data (wlt_window_get_buffer wnd (Some a)) =
        buf_data (buffer wnd) + ucast (rect_y a * buf_stride (buffer wnd)) + ucast (rect_x a * 4) \<and>
      (unat (buf_stride (buffer wnd)) = 4 * unat (buf_width (buffer wnd)) \<and>
       unat (buf_height (buffer wnd)) * unat (buf_stride (buffer wnd)) < 2 ^ 32 \<longrightarrow>
       buf_data (wlt_window_get_buffer wnd (Some a)) =
         buf_data (buffer wnd) +
         word_of_nat (unat (rect_y a) * unat (buf_stride (buffer wnd)) + unat (rect_x a) * 4))) \<and>
   (case resize_window e wnd0 width0 height0 wo of (ret, wnd', wo') \<Rightarrow>
      ret = 0 \<and>
      (buffer wnd' \<noteq> buffer wnd0 \<or> buf_stride (buffer wnd0) = 4 * buf_width (buffer wnd0)) \<longrightarrow>
      buf_stride (buffer wnd') = 4 * buf_width (buffer wnd'))"
proof (intro conjI impI)
  assume inside: "rect_x a < buf_width (buffer wnd) \<and> rect_y a < buf_height (buffer wnd)"
  then show "buf_stride (wlt_window_get_buffer wnd (Some a)) = buf_stride (buffer wnd)"
    by (auto simp: wlt_window_get_buffer_def Let_def)
  from inside show data: "buf_data (wlt_window_get_buffer wnd (Some a)) =
        buf_data (buffer wnd) + ucast (rect_y a * buf_stride (buffer wnd)) + ucast (rect_x a * 4)"
    by (auto simp: wlt_window_get_buffer_def Let_def)
  assume fits: "unat (buf_stride (buffer wnd)) = 4 * unat (buf_width (buffer wnd)) \<and>
       unat (buf_height (buffer wnd)) * unat (buf_stride (buffer wnd)) < 2 ^ 32"
  have "(ucast (rect_y a * buf_stride (buffer wnd)) :: ptr) + ucast (rect_x a * 4) =
      word_of_nat (unat (rect_y a) * unat (buf_stride (buffer wnd)) + unat (rect_x a) * 4)"
    by (rule get_buffer_offsets_exact [OF conjunct1 [OF fits] conjunct2 [OF fits]
          conjunct1 [OF inside] conjunct2 [OF inside]])
  then show "buf_data (wlt_window_get_buffer wnd (Some a)) =
         buf_data (buffer wnd) +
         word_of_nat (unat (rect_y a) * unat (buf_stride (buffer wnd)) + unat (rect_x a) * 4)"
    using data by (simp add: add.assoc)
next
  show "case resize_window e wnd0 width0 height0 wo of (ret, wnd', wo') \<Rightarrow>
      ret = 0 \<and>
      (buffer wnd' \<noteq> buffer wnd0 \<or> buf_stride (buffer wnd0) = 4 * buf_width (buffer wnd0)) \<longrightarrow>
      buf_stride (buffer wnd') = 4 * buf_width (buffer wnd')"
    using resize_window_stride [of e wnd0 width0 height0 wo]
    by (cases "resize_window e wnd0 width0 height0 wo") auto
qed

text \<open>
  Claim C7, at two failing inputs. \<^verbatim>\<open>resize_window\<close> computes \<^verbatim>\<open>width * 4\<close> and
  \<^verbatim>\<open>width * height * 4\<close> in \<^verbatim>\<open>unsigned int\<close> and checks neither. A target that the widget
  adjusts to 1073741824 by 1 is committed, with return value 0, with stride 0 instead of
  4294967296. A target that the widget adjusts to 65536 by 16385 is committed with stride
  262144; for the rectangle at x = 0, y = 16384, inside the buffer, \<^verbatim>\<open>alloc->y * stride\<close>
  wraps around to 0 and \<^verbatim>\<open>wlt_window_get_buffer\<close> returns the base pointer, where the offset
  \<open>y * stride + x * 4\<close> is 4294967296.
\<close>

theorem resize_and_offset_wrap:
  "fst (resize_window env_ok window_100 1073741829 4 empty_world) = 0 \<and>
   unat (buf_width (buffer (fst (snd (resize_window env_ok window_100 1073741829 4
      empty_world))))) = 1073741824 \<and>
   unat (buf_stride (buffer (fst (snd (resize_window env_ok window_100 1073741829 4
      empty_world))))) = 0 \<and>
   fst (resize_window env_ok window_100 65541 16388 empty_world) = 0 \<and>
   buffer (fst (snd (resize_window env_ok window_100 65541 16388 empty_world))) =
     \<lparr>buf_data = 8192, buf_width = 65536, buf_height = 16385, buf_stride = 262144\<rparr> \<and>
   rect_x far_row < 65536 \<and> rect_y far_row < 16385 \<and>
   unat (rect_y far_row) * 262144 + unat (rect_x far_row) * 4 = 4294967296 \<and>
   buf_data (wlt_window_get_buffer
      (fst (snd (resize_window env_ok window_100 65541 16388 empty_world)))
      (Some far_row)) = 8192"
  by (simp add: resize_window_def resize_new_pool_def wlt_pool_new_def resize_commit_def
        wlt_window_do_redraw_buffer case_prod_beta Let_def window_100_def snap_widget_def
        env_ok_def wlt_window_get_buffer_def far_row_def word_le_nat_alt word_less_nat_alt)

subsection \<open>Size requests and the next frame\<close>

lemma resize_entries_emit:
  "resize_entries (emit c wo) = resize_entries wo @ (if is_enter_resize c then [c] else [])"
  by (simp add: resize_entries_def emit_def)

lemma resize_entries_idle [simp]:
  "resize_entries (ev_eloop_unregister_idle_cb k wo) = resize_entries wo"
  "resize_entries (ev_eloop_register_idle_cb k wo) = resize_entries wo"
  by (simp_all add: resize_entries_def ev_eloop_unregister_idle_cb_def
        ev_eloop_register_idle_cb_def emit_def)

lemma resize_entries_resize_cbs [simp]:
  "resize_entries (resize_cbs ws a wo) = resize_entries wo"
  by (induction ws arbitrary: wo) (simp_all add: resize_entries_emit)

lemma resize_entries_redraw_cbs [simp]:
  "resize_entries (redraw_cbs ws wo) = resize_entries wo"
  by (induction ws arbitrary: wo) (simp_all add: resize_entries_emit)

lemma resize_entries_do_redraw [simp]:
  "resize_entries (snd (wlt_window_do_redraw wnd ow oh wo)) = resize_entries wo"
  by (simp add: wlt_window_do_redraw_def Let_def resize_entries_emit)

lemma resize_entries_commit [simp]:
  "resize_entries (snd (snd (resize_commit wnd wd ht ow oh ob op wo))) = resize_entries wo"
  by (simp add: resize_commit_def Let_def case_prod_beta resize_entries_emit
        split: option.splits)

lemma resize_entries_new_pool [simp]:
  "resize_entries (snd (snd (resize_new_pool e wnd wd ht ow oh nsize wo))) = resize_entries wo"
  by (simp add: resize_new_pool_def Let_def resize_entries_emit split: sum.splits)

lemma resize_entries_prepare [simp]:
  "resize_entries (snd (snd (snd (prepare_resize_cbs e ws wd ht (wnd, wo))))) = resize_entries wo"
proof -
  obtain cs where "calls (snd (snd (snd (prepare_resize_cbs e ws wd ht (wnd, wo))))) = calls wo @ cs"
    "list_all is_request_entry cs"
    using prepare_resize_cbs_requests by blast
  then show ?thesis
    using request_entries_harmless(3) by (simp add: resize_entries_def)
qed

lemma resize_entries_resize_window:
  "resize_entries (snd (snd (resize_window e wnd w h wo))) =
     resize_entries wo @ [Enter_resize_window w h]"
proof -
  obtain wd ht wnd1 wo1 where p:
    "prepare_resize_cbs e (widget_list wnd) w h (wnd, emit (Enter_resize_window w h) wo) =
       (wd, ht, wnd1, wo1)"
    by (metis prod_cases4)
  have "resize_entries wo1 = resize_entries wo @ [Enter_resize_window w h]"
    using resize_entries_prepare [of e "widget_list wnd" w h wnd
        "emit (Enter_resize_window w h) wo"]
    by (simp add: p resize_entries_emit)
  then show ?thesis
    by (simp add: resize_window_def Let_def p resize_entries_emit split: option.splits)
qed

lemma do_frame_resize_entries:
  "resize_entries (snd (do_frame e wnd wo)) =
     resize_entries wo @
     (if need_resize wnd then [Enter_resize_window (new_width wnd) (new_height wnd)] else [])"
  by (simp add: do_frame_def Let_def case_prod_beta resize_entries_resize_window)

lemma set_size_calls_snoc:
  "set_size_calls e (rs @ [r]) s = snd (wlt_window_set_size e r (set_size_calls e rs s))"
  by (induction rs arbitrary: s) simp_all

lemma schedule_frame_target:
  "new_width (fst (schedule_frame e wnd wo)) = new_width wnd \<and>
   new_height (fst (schedule_frame e wnd wo)) = new_height wnd \<and>
   need_resize (fst (schedule_frame e wnd wo)) = need_resize wnd \<and>
   filter is_enter_resize (calls (snd (schedule_frame e wnd wo))) =
     filter is_enter_resize (calls wo)"
  by (simp add: schedule_frame_def ev_eloop_register_idle_cb_def emit_def)

lemma set_size_enters_nothing:
  "filter is_enter_resize (calls (snd (snd (wlt_window_set_size e r (wnd, wo))))) =
   filter is_enter_resize (calls wo)"
proof (cases "fst r = 0 \<or> snd r = 0")
  case True
  then show ?thesis by (auto simp: wlt_window_set_size_def split: prod.splits)
next
  case False
  then show ?thesis
    using schedule_frame_target
      [of e "wnd\<lparr>new_width := fst r, new_height := snd r, need_resize := True\<rparr>" wo]
    by (simp add: wlt_window_set_size_def case_prod_beta)
qed

lemma set_size_target:
  "new_width (fst (snd (wlt_window_set_size e r (wnd, wo)))) =
     (if fst r = 0 \<or> snd r = 0 then new_width wnd else fst r) \<and>
   new_height (fst (snd (wlt_window_set_size e r (wnd, wo)))) =
     (if fst r = 0 \<or> snd r = 0 then new_height wnd else snd r) \<and>
   need_resize (fst (snd (wlt_window_set_size e r (wnd, wo)))) =
     (if fst r = 0 \<or> snd r = 0 then need_resize wnd else True)"
  using schedule_frame_target
      [of e "wnd\<lparr>new_width := fst r, new_height := snd r, need_resize := True\<rparr>" wo]
  by (simp add: wlt_window_set_size_def case_prod_beta)

lemma set_size_calls_target:
  "(accepted reqs = [] \<longrightarrow>
      new_width (fst (set_size_calls e reqs (wnd, wo))) = new_width wnd \<and>
      new_height (fst (set_size_calls e reqs (wnd, wo))) = new_height wnd \<and>
      need_resize (fst (set_size_calls e reqs (wnd, wo))) = need_resize wnd) \<and>
   (accepted reqs \<noteq> [] \<longrightarrow>
      (new_width (fst (set_size_calls e reqs (wnd, wo))),
       new_height (fst (set_size_calls e reqs (wnd, wo)))) = last (accepted reqs) \<and>
      need_resize (fst (set_size_calls e reqs (wnd, wo)))) \<and>
   filter is_enter_resize (calls (snd (set_size_calls e reqs (wnd, wo)))) =
     filter is_enter_resize (calls wo)"
proof (induction reqs rule: rev_induct)
  case Nil
  then show ?case by (simp add: accepted_def)
next
  case (snoc r rs)
  obtain wnd1 wo1 where s1: "set_size_calls e rs (wnd, wo) = (wnd1, wo1)"
    by (cases "set_size_calls e rs (wnd, wo)") auto
  show ?case
    using snoc.IH set_size_target [of e r wnd1 wo1] set_size_enters_nothing [of e r wnd1 wo1]
    by (auto simp: set_size_calls_snoc s1 accepted_def prod_eq_iff)
qed

text \<open>
  Claim C2, amended. A \<^verbatim>\<open>wlt_window_set_size\<close> call with a zero width or a zero height
  returns \<^verbatim>\<open>-EINVAL\<close> and changes nothing; any other call returns 0. After any sequence of
  calls, none of which runs the resize algorithm itself, the pending target is the last
  request with a non-zero width and a non-zero height, and \<^verbatim>\<open>need_resize\<close> is set if there
  was one. The frame that is serviced next, through \<^verbatim>\<open>do_frame\<close>, \<^verbatim>\<open>idle_frame\<close> or
  \<^verbatim>\<open>frame_callback\<close>, executes \<^verbatim>\<open>resize_window\<close> exactly once, with that target, if
  \<^verbatim>\<open>need_resize\<close> is set, and not at all otherwise. As stated, for every sequence of calls
  and the last requested pair, the claim fails when the last call has a zero dimension.
\<close>

theorem set_size_last_accepted_request_wins:
  "(fst r = 0 \<or> snd r = 0 \<longrightarrow>
      wlt_window_set_size e r (wnd, wo) = (- EINVAL, wnd, wo)) \<and>
   (fst r \<noteq> 0 \<and> snd r \<noteq> 0 \<longrightarrow> fst (wlt_window_set_size e r (wnd, wo)) = 0) \<and>
   (case set_size_calls e reqs (wnd, wo) of (wnd1, wo1) \<Rightarrow>
     resize_entries wo1 = resize_entries wo \<and>
     (accepted reqs = [] \<longrightarrow>
        need_resize wnd1 = need_resize wnd \<and> new_width wnd1 = new_width wnd \<and>
        new_height wnd1 = new_height wnd) \<and>
     (accepted reqs \<noteq> [] \<longrightarrow>
        need_resize wnd1 \<and> (new_width wnd1, new_height wnd1) = last (accepted reqs)) \<and>
     resize_entries (snd (do_frame e' wnd1 wo1)) =
       resize_entries wo1 @
       (if need_resize wnd1 then [Enter_resize_window (new_width wnd1) (new_height wnd1)] else []) \<and>
     resize_entries (snd (idle_frame e' wnd1 wo1)) =
       resize_entries wo1 @
       (if need_resize wnd1 then [Enter_resize_window (new_width wnd1) (new_height wnd1)] else []) \<and>
     resize_entries (snd (frame_callback e' wnd1 wo1)) =
       resize_entries wo1 @
       (if need_resize wnd1 then [Enter_resize_window (new_width wnd1) (new_height wnd1)] else []))"
proof -
  obtain wnd1 wo1 where s1: "set_size_calls e reqs (wnd, wo) = (wnd1, wo1)"
    by (cases "set_size_calls e reqs (wnd, wo)") auto
  have ret: "(fst r = 0 \<or> snd r = 0 \<longrightarrow>
      wlt_window_set_size e r (wnd, wo) = (- EINVAL, wnd, wo)) \<and>
   (fst r \<noteq> 0 \<and> snd r \<noteq> 0 \<longrightarrow> fst (wlt_window_set_size e r (wnd, wo)) = 0)"
    by (cases r) (simp add: wlt_window_set_size_def)
  have frames: "resize_entries (snd (idle_frame e' wnd1 wo1)) =
       resize_entries wo1 @
       (if need_resize wnd1 then [Enter_resize_window (new_width wnd1) (new_height wnd1)] else [])"
    "resize_entries (snd (frame_callback e' wnd1 wo1)) =
       resize_entries wo1 @
       (if need_resize wnd1 then [Enter_resize_window (new_width wnd1) (new_height wnd1)] else [])"
    by (simp_all add: idle_frame_def frame_callback_def do_frame_resize_entries)
  have "resize_entries wo1 = resize_entries wo"
    using set_size_calls_target [of reqs e wnd wo] by (simp add: s1 resize_entries_def)
  then show ?thesis
    using set_size_calls_target [of reqs e wnd wo] frames ret
    by (simp add: s1 do_frame_resize_entries)
qed

theorem set_size_last_accepted_request_wins_witness:
  "wlt_window_set_size env_ok (0, 5) (window_100, empty_world) =
     (- EINVAL, window_100, empty_world) \<and>
   fst (wlt_window_set_size env_ok (50, 200) (window_100, empty_world)) = 0 \<and>
   accepted size_requests = [(10, 10), (50, 200)] \<and>
   need_resize (fst (set_size_calls env_ok size_requests (window_100, empty_world))) \<and>
   new_width (fst (set_size_calls env_ok size_requests (window_100, empty_world))) = 50 \<and>
   new_height (fst (set_size_calls env_ok size_requests (window_100, empty_world))) = 200 \<and>
   resize_entries (snd (set_size_calls env_ok size_requests (window_100, empty_world))) = [] \<and>
   resize_entries
     (snd (do_frame env_ok (fst (set_size_calls env_ok size_requests (window_100, empty_world)))
             (snd (set_size_calls env_ok size_requests (window_100, empty_world))))) =
     [Enter_resize_window 50 200]"
  using set_size_last_accepted_request_wins
          [where e = env_ok and reqs = size_requests and wnd = window_100 and wo = empty_world
             and e' = env_ok and r = "(0, 5)"]
        set_size_last_accepted_request_wins
          [where e = env_ok and reqs = size_requests and wnd = window_100 and wo = empty_world
             and e' = env_ok and r = "(50, 200)"]
  by (simp add: case_prod_beta accepted_def size_requests_def resize_entries_def
        empty_world_def prod_eq_iff split: if_splits)

theorem set_size_last_request_counterexample:
  "last rejected_last = (0, 5) \<and>
   new_width (fst (set_size_calls env_ok rejected_last (window_100, empty_world))) = 10 \<and>
   new_height (fst (set_size_calls env_ok rejected_last (window_100, empty_world))) = 10 \<and>
   resize_entries
     (snd (do_frame env_ok (fst (set_size_calls env_ok rejected_last (window_100, empty_world)))
             (snd (set_size_calls env_ok rejected_last (window_100, empty_world))))) =
     [Enter_resize_window 10 10]"
proof -
  have t: "accepted rejected_last = [(10, 10)]"
    by (simp add: accepted_def rejected_last_def)
  have "resize_entries (snd (set_size_calls env_ok rejected_last (window_100, empty_world))) = []"
    using set_size_calls_target [of rejected_last env_ok window_100 empty_world]
    by (simp add: resize_entries_def empty_world_def)
  then show ?thesis
    using set_size_calls_target [of rejected_last env_ok window_100 empty_world] t
    by (simp add: do_frame_resize_entries prod_eq_iff) (simp add: rejected_last_def)
qed

subsection \<open>Closing twice\<close>




subsection \<open>Pointer leave and keyboard modifiers\<close>

text \<open>
  Claim C9, amended. A pointer-leave event that arrives while no window has pointer focus
  invokes no widget callback (the log is unchanged) and leaves the display as it was
  except for \<^verbatim>\<open>last_serial\<close>, which becomes the serial of the event. As stated, with the
  last serial unchanged too, the claim fails: \<^verbatim>\<open>pointer_leave\<close> stores the serial before
  it looks at the focus.
\<close>

theorem pointer_leave_without_focus:
  assumes "pointer_focus d = None"
  shows "pointer_leave d serial wo = (d\<lparr>last_serial := serial\<rparr>, wo)"
  using assms by (simp add: pointer_leave_def Let_def)

theorem pointer_leave_without_focus_witness:
  "pointer_leave display_running 9 empty_world = (display_running\<lparr>last_serial := 9\<rparr>, empty_world)"
  using pointer_leave_without_focus [where d = display_running and serial = 9 and wo = empty_world]
  by (simp add: display_running_def)

theorem pointer_leave_without_focus_counterexample:
  "pointer_focus display_running = None \<and>
   last_serial display_running = 5 \<and>
   last_serial (fst (pointer_leave display_running 9 empty_world)) = 9 \<and>
   fst (pointer_leave display_running 9 empty_world) \<noteq> display_running"
proof -
  have "last_serial (fst (pointer_leave display_running 9 empty_world)) = 9"
    by (simp add: pointer_leave_def Let_def display_running_def)
  moreover have "last_serial display_running = 5" "pointer_focus display_running = None"
    by (simp_all add: display_running_def)
  ultimately show ?thesis by auto
qed

lemma keyboard_cbs_masks:
  "\<exists>cs. keyboard_cbs ws mods ksym kst wo = wo\<lparr>calls := calls wo @ cs\<rparr> \<and>
        keyboard_masks cs = replicate (length (filter keyboard_cb ws)) mods"
proof (induction ws arbitrary: wo)
  case Nil
  then show ?case by (intro exI [of _ "[]"]) simp
next
  case (Cons w ws)
  show ?case
  proof (cases "keyboard_cb w")
    case False
    then show ?thesis using Cons.IH [of wo] by simp
  next
    case True
    obtain cs where cs: "keyboard_cbs ws mods ksym kst (emit (Cb_keyboard (widget_data w) mods ksym kst) wo)
        = (emit (Cb_keyboard (widget_data w) mods ksym kst) wo)\<lparr>calls := calls (emit (Cb_keyboard (widget_data w) mods ksym kst) wo) @ cs\<rparr>"
      "keyboard_masks cs = replicate (length (filter keyboard_cb ws)) mods"
      using Cons.IH by blast
    show ?thesis
      using True cs
      by (intro exI [of _ "Cb_keyboard (widget_data w) mods ksym kst # cs"])
         (simp add: emit_def)
  qed
qed

lemma modmask_as_or:
  "get_effective_modmask m st =
     (if mod_name_is_active st XKB_MOD_NAME_SHIFT \<noteq> 0 then TSM_SHIFT_MASK m else 0) OR
     (if mod_name_is_active st XKB_MOD_NAME_CAPS \<noteq> 0 then TSM_LOCK_MASK m else 0) OR
     (if mod_name_is_active st XKB_MOD_NAME_CTRL \<noteq> 0 then TSM_CONTROL_MASK m else 0) OR
     (if mod_name_is_active st XKB_MOD_NAME_ALT \<noteq> 0 then TSM_MOD1_MASK m else 0) OR
     (if mod_name_is_active st XKB_MOD_NAME_LOGO \<noteq> 0 then TSM_MOD4_MASK m else 0)"
  by (simp add: get_effective_modmask_def Let_def or.assoc)

lemma if_and_distrib:
  fixes a b :: u32
  shows "(if p then a else 0) AND b = (if p then a AND b else 0)"
  by simp

lemma independent_bits_disjoint:
  assumes "independent_bits m"
  shows "TSM_SHIFT_MASK m AND TSM_LOCK_MASK m = 0" "TSM_SHIFT_MASK m AND TSM_CONTROL_MASK m = 0"
    "TSM_SHIFT_MASK m AND TSM_MOD1_MASK m = 0" "TSM_SHIFT_MASK m AND TSM_MOD4_MASK m = 0"
    "TSM_LOCK_MASK m AND TSM_CONTROL_MASK m = 0" "TSM_LOCK_MASK m AND TSM_MOD1_MASK m = 0"
    "TSM_LOCK_MASK m AND TSM_MOD4_MASK m = 0" "TSM_CONTROL_MASK m AND TSM_MOD1_MASK m = 0"
    "TSM_CONTROL_MASK m AND TSM_MOD4_MASK m = 0" "TSM_MOD1_MASK m AND TSM_MOD4_MASK m = 0"
    "TSM_LOCK_MASK m AND TSM_SHIFT_MASK m = 0" "TSM_CONTROL_MASK m AND TSM_SHIFT_MASK m = 0"
    "TSM_MOD1_MASK m AND TSM_SHIFT_MASK m = 0" "TSM_MOD4_MASK m AND TSM_SHIFT_MASK m = 0"
    "TSM_CONTROL_MASK m AND TSM_LOCK_MASK m = 0" "TSM_MOD1_MASK m AND TSM_LOCK_MASK m = 0"
    "TSM_MOD4_MASK m AND TSM_LOCK_MASK m = 0" "TSM_MOD1_MASK m AND TSM_CONTROL_MASK m = 0"
    "TSM_MOD4_MASK m AND TSM_CONTROL_MASK m = 0" "TSM_MOD4_MASK m AND TSM_MOD1_MASK m = 0"
  using assms
  by (simp_all add: independent_bits_def mask_list_def and.commute)

lemma independent_bits_nonzero:
  assumes "independent_bits m"
  shows "TSM_SHIFT_MASK m \<noteq> 0" "TSM_LOCK_MASK m \<noteq> 0" "TSM_CONTROL_MASK m \<noteq> 0"
    "TSM_MOD1_MASK m \<noteq> 0" "TSM_MOD4_MASK m \<noteq> 0"
  using assms by (simp_all add: independent_bits_def mask_list_def)

lemma modmask_bits:
  assumes "independent_bits m"
  shows "get_effective_modmask m st AND TSM_SHIFT_MASK m =
           (if mod_name_is_active st XKB_MOD_NAME_SHIFT \<noteq> 0 then TSM_SHIFT_MASK m else 0)"
    and "get_effective_modmask m st AND TSM_LOCK_MASK m =
           (if mod_name_is_active st XKB_MOD_NAME_CAPS \<noteq> 0 then TSM_LOCK_MASK m else 0)"
    and "get_effective_modmask m st AND TSM_CONTROL_MASK m =
           (if mod_name_is_active st XKB_MOD_NAME_CTRL \<noteq> 0 then TSM_CONTROL_MASK m else 0)"
    and "get_effective_modmask m st AND TSM_MOD1_MASK m =
           (if mod_name_is_active st XKB_MOD_NAME_ALT \<noteq> 0 then TSM_MOD1_MASK m else 0)"
    and "get_effective_modmask m st AND TSM_MOD4_MASK m =
           (if mod_name_is_active st XKB_MOD_NAME_LOGO \<noteq> 0 then TSM_MOD4_MASK m else 0)"
  unfolding modmask_as_or bit.conj_disj_distrib2 if_and_distrib
  by (simp_all add: independent_bits_disjoint [OF assms])

text \<open>
  Claim C8. On a key event for a display with a keymap state and a focused window, every
  keyboard callback is given the mask \<^verbatim>\<open>get_effective_modmask\<close> computes from the keymap
  state. When exactly Shift and Control are reported active, that mask is the bitwise OR
  of the Shift bit and the Control bit. For five independent mask bits, each bit is set
  in the mask if and only if its own modifier is reported active, whatever the other
  four modifiers are.
\<close>

theorem keyboard_key_modmask:
  assumes "xkb_state d = Some st" and "keyboard_focus d = Some a"
  shows "keyboard_masks (new_calls wo (snd (keyboard_key m d serial time key state_w wo))) =
           replicate (length (filter keyboard_cb (widgets_at d a))) (get_effective_modmask m st) \<and>
         (mod_name_is_active st XKB_MOD_NAME_SHIFT \<noteq> 0 \<and>
          mod_name_is_active st XKB_MOD_NAME_CTRL \<noteq> 0 \<and>
          mod_name_is_active st XKB_MOD_NAME_CAPS = 0 \<and>
          mod_name_is_active st XKB_MOD_NAME_ALT = 0 \<and>
          mod_name_is_active st XKB_MOD_NAME_LOGO = 0 \<longrightarrow>
          get_effective_modmask m st = TSM_SHIFT_MASK m OR TSM_CONTROL_MASK m) \<and>
         (independent_bits m \<longrightarrow>
          (get_effective_modmask m st AND TSM_SHIFT_MASK m \<noteq> 0
             \<longleftrightarrow> mod_name_is_active st XKB_MOD_NAME_SHIFT \<noteq> 0) \<and>
          (get_effective_modmask m st AND TSM_LOCK_MASK m \<noteq> 0
             \<longleftrightarrow> mod_name_is_active st XKB_MOD_NAME_CAPS \<noteq> 0) \<and>
          (get_effective_modmask m st AND TSM_CONTROL_MASK m \<noteq> 0
             \<longleftrightarrow> mod_name_is_active st XKB_MOD_NAME_CTRL \<noteq> 0) \<and>
          (get_effective_modmask m st AND TSM_MOD1_MASK m \<noteq> 0
             \<longleftrightarrow> mod_name_is_active st XKB_MOD_NAME_ALT \<noteq> 0) \<and>
          (get_effective_modmask m st AND TSM_MOD4_MASK m \<noteq> 0
             \<longleftrightarrow> mod_name_is_active st XKB_MOD_NAME_LOGO \<noteq> 0))"
proof (intro conjI impI)
  let ?mods = "get_effective_modmask m st"
  let ?ksym = "if length (key_get_syms st (key + 8)) = 1 then hd (key_get_syms st (key + 8))
               else XKB_KEY_NoSymbol"
  obtain cs where cs:
    "keyboard_cbs (widgets_at d a) ?mods ?ksym state_w wo = wo\<lparr>calls := calls wo @ cs\<rparr>"
    "keyboard_masks cs = replicate (length (filter keyboard_cb (widgets_at d a))) ?mods"
    using keyboard_cbs_masks by blast
  have "snd (keyboard_key m d serial time key state_w wo) = wo\<lparr>calls := calls wo @ cs\<rparr>"
    using assms cs(1) by (simp add: keyboard_key_def Let_def widgets_at_def)
  then show "keyboard_masks (new_calls wo (snd (keyboard_key m d serial time key state_w wo))) =
           replicate (length (filter keyboard_cb (widgets_at d a))) ?mods"
    using cs(2) by simp
next
  assume "mod_name_is_active st XKB_MOD_NAME_SHIFT \<noteq> 0 \<and>
          mod_name_is_active st XKB_MOD_NAME_CTRL \<noteq> 0 \<and>
          mod_name_is_active st XKB_MOD_NAME_CAPS = 0 \<and>
          mod_name_is_active st XKB_MOD_NAME_ALT = 0 \<and>
          mod_name_is_active st XKB_MOD_NAME_LOGO = 0"
  then show "get_effective_modmask m st = TSM_SHIFT_MASK m OR TSM_CONTROL_MASK m"
    by (simp add: modmask_as_or)
qed (simp_all add: modmask_bits independent_bits_nonzero)

theorem keyboard_key_modmask_witness:
  "keyboard_masks (new_calls empty_world
      (snd (keyboard_key masks_x11 display_running 9 0 30 1 empty_world))) = [5] \<and>
   get_effective_modmask masks_x11 xkb_shift_ctrl = 1 OR 4 \<and>
   independent_bits masks_x11 \<and>
   get_effective_modmask masks_x11 xkb_shift_ctrl AND 2 = 0"
  using keyboard_key_modmask [where d = display_running and st = xkb_shift_ctrl and a = 1
          and m = masks_x11 and wo = empty_world and serial = 9 and time = 0 and key = 30
          and state_w = 1]
  by (simp add: display_running_def xkb_shift_ctrl_def masks_x11_def widgets_at_def
        window_100_def snap_widget_def independent_bits_def mask_list_def
        XKB_MOD_NAME_SHIFT_def XKB_MOD_NAME_CTRL_def XKB_MOD_NAME_CAPS_def
        XKB_MOD_NAME_ALT_def XKB_MOD_NAME_LOGO_def)


subsection \<open>Readiness of the display\<close>

lemma all_ready_iff:
  "all_ready d \<longleftrightarrow> w_comp d \<noteq> None \<and> w_seat d \<noteq> None \<and> w_shell d \<noteq> None \<and> w_shm d \<noteq> None \<and>
     w_pointer d \<noteq> None \<and> w_keyboard d \<noteq> None"
  by (simp add: all_ready_def all_conds_def)

lemma check_ready_inv: "pre_inv (d, wo) \<Longrightarrow> ready_inv (check_ready d wo)"
  by (auto simp: pre_inv_def ready_inv_def check_ready_def all_ready_iff ready_broadcasts_def
        emit_def STATE_INIT_def STATE_RUNNING_def STATE_HUP_def)

lemma check_ready_state:
  "state d \<noteq> STATE_HUP \<Longrightarrow> state (fst (check_ready d wo)) \<noteq> STATE_HUP"
  by (simp add: check_ready_def STATE_INIT_def STATE_RUNNING_def STATE_HUP_def)

lemma check_ready_fields [simp]:
  "w_comp (fst (check_ready d wo)) = w_comp d"
  "w_seat (fst (check_ready d wo)) = w_seat d"
  "w_shell (fst (check_ready d wo)) = w_shell d"
  "w_shm (fst (check_ready d wo)) = w_shm d"
  "w_pointer (fst (check_ready d wo)) = w_pointer d"
  "w_keyboard (fst (check_ready d wo)) = w_keyboard d"
  by (simp_all add: check_ready_def)

lemma dp_global_fields:
  "w_comp (fst (dp_global d iface b wo)) =
     (if iface = ''wl_compositor'' \<and> w_comp d = None then b else w_comp d)"
  "w_seat (fst (dp_global d iface b wo)) =
     (if iface = ''wl_seat'' \<and> w_seat d = None then b else w_seat d)"
  "w_shell (fst (dp_global d iface b wo)) =
     (if iface = ''wl_shell'' \<and> w_shell d = None then b else w_shell d)"
  "w_shm (fst (dp_global d iface b wo)) =
     (if iface = ''wl_shm'' \<and> w_shm d = None then b else w_shm d)"
  "w_pointer (fst (dp_global d iface b wo)) = w_pointer d"
  "w_keyboard (fst (dp_global d iface b wo)) = w_keyboard d"
  by (simp_all add: dp_global_def Let_def)

lemma seat_capabilities_fields:
  "w_comp (fst (seat_capabilities d caps p k wo)) = w_comp d"
  "w_seat (fst (seat_capabilities d caps p k wo)) = w_seat d"
  "w_shell (fst (seat_capabilities d caps p k wo)) = w_shell d"
  "w_shm (fst (seat_capabilities d caps p k wo)) = w_shm d"
  "w_pointer (fst (seat_capabilities d caps p k wo)) =
     (if caps AND WL_SEAT_CAPABILITY_POINTER \<noteq> 0 \<and> w_pointer d = None then p else w_pointer d)"
  "w_keyboard (fst (seat_capabilities d caps p k wo)) =
     (if caps AND WL_SEAT_CAPABILITY_KEYBOARD \<noteq> 0 \<and> w_keyboard d = None then k
      else w_keyboard d)"
  by (auto simp: seat_capabilities_def Let_def)

lemma dp_event_fields:
  "w_comp (fst (dp_event d hup wo)) = w_comp d"
  "w_seat (fst (dp_event d hup wo)) = w_seat d"
  "w_shell (fst (dp_event d hup wo)) = w_shell d"
  "w_shm (fst (dp_event d hup wo)) = w_shm d"
  "w_pointer (fst (dp_event d hup wo)) = w_pointer d"
  "w_keyboard (fst (dp_event d hup wo)) = w_keyboard d"
  by (simp_all add: dp_event_def)

lemma dp_step_handles:
  "holds c (fst (dp_step ev (d, wo))) \<longleftrightarrow> holds c d \<or> provides c ev"
proof (cases ev)
  case (Global iface b)
  then show ?thesis
    by (cases c) (auto simp: dp_global_fields)
next
  case (Seat_caps caps p k)
  then show ?thesis
    by (cases c) (auto simp: seat_capabilities_fields)
next
  case (Fd_event hup)
  then show ?thesis
    by (cases c) (simp_all add: dp_event_fields)
qed

lemma dp_run_handles:
  "holds c (fst (dp_run es s)) \<longleftrightarrow> holds c (fst s) \<or> list_ex (provides c) es"
proof (induction es arbitrary: s)
  case Nil
  then show ?case by simp
next
  case (Cons ev es)
  show ?case
    using Cons.IH [of "dp_step ev s"] dp_step_handles [of c ev "fst s" "snd s"]
    by auto
qed

lemma dp_run_all_ready:
  "all_ready (fst (dp_run es (wlt_display_new fd, wo))) \<longleftrightarrow> all_provided es"
  by (simp add: all_ready_def all_provided_def dp_run_handles all_conds_def wlt_display_new_def)

lemma pre_inv_bind:
  assumes "ready_inv (d, wo)"
  shows "w_comp d = None \<Longrightarrow> pre_inv (d\<lparr>w_comp := b\<rparr>, wo)"
    and "w_seat d = None \<Longrightarrow> pre_inv (d\<lparr>w_seat := b\<rparr>, wo)"
    and "w_shell d = None \<Longrightarrow> pre_inv (d\<lparr>w_shell := b\<rparr>, wo)"
    and "w_shm d = None \<Longrightarrow> pre_inv (d\<lparr>w_shm := b\<rparr>, wo)"
    and "w_pointer d = None \<Longrightarrow> pre_inv (d\<lparr>w_pointer := b\<rparr>, wo)"
    and "w_keyboard d = None \<Longrightarrow> pre_inv (d\<lparr>w_keyboard := b\<rparr>, wo)"
    and "w_pointer d = None \<Longrightarrow> w_keyboard d = None \<Longrightarrow>
         pre_inv (d\<lparr>w_pointer := b, w_keyboard := b'\<rparr>, wo)"
    and "pre_inv (d, wo)"
  using assms by (auto simp: pre_inv_def ready_inv_def all_ready_iff)

lemma ready_inv_bind_none:
  assumes "ready_inv (d, wo)"
  shows "w_comp d = None \<Longrightarrow> ready_inv (d\<lparr>w_comp := None\<rparr>, wo)"
    and "w_seat d = None \<Longrightarrow> ready_inv (d\<lparr>w_seat := None\<rparr>, wo)"
    and "w_shell d = None \<Longrightarrow> ready_inv (d\<lparr>w_shell := None\<rparr>, wo)"
    and "w_shm d = None \<Longrightarrow> ready_inv (d\<lparr>w_shm := None\<rparr>, wo)"
  using assms by (auto simp: pre_inv_def ready_inv_def all_ready_iff)

lemma dp_global_inv:
  assumes "ready_inv (d, wo)"
  shows "ready_inv (dp_global d iface b wo)"
proof -
  note none = ready_inv_bind_none [OF assms]
  have chk: "w_comp d = None \<Longrightarrow> ready_inv (check_ready (d\<lparr>w_comp := b\<rparr>) wo)"
    "w_seat d = None \<Longrightarrow> ready_inv (check_ready (d\<lparr>w_seat := b\<rparr>) wo)"
    "w_shell d = None \<Longrightarrow> ready_inv (check_ready (d\<lparr>w_shell := b\<rparr>) wo)"
    "w_shm d = None \<Longrightarrow> ready_inv (check_ready (d\<lparr>w_shm := b\<rparr>) wo)"
    by (rule check_ready_inv, rule pre_inv_bind [OF assms], assumption)+
  consider "iface = ''wl_display''" | "iface = ''wl_compositor''" | "iface = ''wl_seat''"
    | "iface = ''wl_shell''" | "iface = ''wl_shm''"
    | "iface \<noteq> ''wl_display''" "iface \<noteq> ''wl_compositor''" "iface \<noteq> ''wl_seat''"
      "iface \<noteq> ''wl_shell''" "iface \<noteq> ''wl_shm''"
    by blast
  then show ?thesis
  proof cases
    case 1
    then show ?thesis using assms by (simp add: dp_global_def)
  next
    case 2
    then show ?thesis
      using assms none(1) chk(1) by (cases b) (simp_all add: dp_global_def Let_def)
  next
    case 3
    then show ?thesis
      using assms none(2) chk(2) by (cases b) (simp_all add: dp_global_def Let_def)
  next
    case 4
    then show ?thesis
      using assms none(3) chk(3) by (cases b) (simp_all add: dp_global_def Let_def)
  next
    case 5
    then show ?thesis
      using assms none(4) chk(4) by (cases b) (simp_all add: dp_global_def Let_def)
  next
    case 6
    then show ?thesis using assms by (simp add: dp_global_def)
  qed
qed

lemma seat_capabilities_inv:
  assumes "ready_inv (d, wo)"
  shows "ready_inv (seat_capabilities d caps p k wo)"
proof -
  let ?d1 = "if caps AND WL_SEAT_CAPABILITY_POINTER \<noteq> 0 \<and> w_pointer d = None
             then d\<lparr>w_pointer := p\<rparr> else d"
  let ?d2 = "if caps AND WL_SEAT_CAPABILITY_KEYBOARD \<noteq> 0 \<and> w_keyboard ?d1 = None
             then ?d1\<lparr>w_keyboard := k\<rparr> else ?d1"
  have "pre_inv (?d2, wo)"
    using pre_inv_bind(5-8) [OF assms] by simp
  then have "ready_inv (check_ready ?d2 wo)"
    by (rule check_ready_inv)
  then show ?thesis
    by (simp add: seat_capabilities_def Let_def)
qed

lemma dp_event_inv:
  assumes "ready_inv (d, wo)"
  shows "ready_inv (dp_event d hup wo)"
  using assms
  by (auto simp: dp_event_def ready_inv_def pre_inv_def ready_broadcasts_def emit_def
        STATE_INIT_def STATE_RUNNING_def STATE_HUP_def)

lemma dp_step_inv: "ready_inv s \<Longrightarrow> ready_inv (dp_step ev s)"
  by (cases s; cases ev) (simp_all add: dp_global_inv seat_capabilities_inv dp_event_inv)

lemma dp_run_inv: "ready_inv s \<Longrightarrow> ready_inv (dp_run es s)"
  by (induction es arbitrary: s) (simp_all add: dp_step_inv)

lemma dp_step_no_hup:
  assumes "state (fst s) \<noteq> STATE_HUP" and "ev \<noteq> Fd_event True"
  shows "state (fst (dp_step ev s)) \<noteq> STATE_HUP"
proof (cases s)
  case (Pair d wo)
  show ?thesis
  proof (cases ev)
    case (Global iface b)
    then show ?thesis
      using assms(1) Pair by (simp add: dp_global_def Let_def check_ready_state)
  next
    case (Seat_caps caps p k)
    then show ?thesis
      using assms(1) Pair by (simp add: seat_capabilities_def Let_def check_ready_state)
  next
    case (Fd_event hup)
    then show ?thesis
      using assms Pair by (simp add: dp_event_def)
  qed
qed

lemma dp_run_no_hup:
  "state (fst s) \<noteq> STATE_HUP \<Longrightarrow> hangup_free es \<Longrightarrow> state (fst (dp_run es s)) \<noteq> STATE_HUP"
  by (induction es arbitrary: s) (simp_all add: hangup_free_def dp_step_no_hup)

lemma ready_inv_new: "ready_inv (wlt_display_new fd, empty_world)"
  by (simp add: ready_inv_def pre_inv_def wlt_display_new_def empty_world_def all_ready_iff
        ready_broadcasts_def)

lemma all_provided_set: "set es = set es' \<Longrightarrow> all_provided es = all_provided es'"
  by (simp add: all_provided_def list_ex_iff)

lemma all_provided_six: "all_provided six_events"
  by (simp add: all_provided_def all_conds_def six_events_def
        WL_SEAT_CAPABILITY_POINTER_def WL_SEAT_CAPABILITY_KEYBOARD_def)

lemma hangup_free_six: "hangup_free six_events"
  by (simp add: hangup_free_def six_events_def)

lemma hangup_free_subset: "set es \<subseteq> set es' \<Longrightarrow> hangup_free es' \<Longrightarrow> hangup_free es"
  by (auto simp: hangup_free_def list_all_iff)

lemma six_events_unique_provider:
  assumes "ev \<in> set six_events"
  shows "\<exists>c. \<forall>ev' \<in> set six_events. provides c ev' \<longrightarrow> ev' = ev"
proof -
  from assms consider "ev = Global ''wl_compositor'' (Some 11)" | "ev = Global ''wl_seat'' (Some 12)"
    | "ev = Global ''wl_shell'' (Some 13)" | "ev = Global ''wl_shm'' (Some 14)"
    | "ev = Seat_caps 1 (Some 15) None" | "ev = Seat_caps 2 None (Some 16)"
    by (auto simp: six_events_def)
  then show ?thesis
  proof cases
    case 1
    then show ?thesis by (intro exI [of _ Compositor]) (simp add: six_events_def)
  next
    case 2
    then show ?thesis by (intro exI [of _ Seat]) (simp add: six_events_def)
  next
    case 3
    then show ?thesis by (intro exI [of _ Shell]) (simp add: six_events_def)
  next
    case 4
    then show ?thesis by (intro exI [of _ Shm]) (simp add: six_events_def)
  next
    case 5
    then show ?thesis
      by (intro exI [of _ Pointer_device])
         (simp add: six_events_def WL_SEAT_CAPABILITY_POINTER_def)
  next
    case 6
    then show ?thesis
      by (intro exI [of _ Keyboard_device])
         (simp add: six_events_def WL_SEAT_CAPABILITY_KEYBOARD_def)
  qed
qed

lemma nth_not_in_take:
  assumes "distinct xs" and "n < length xs"
  shows "xs ! n \<notin> set (take n xs)"
proof -
  have "distinct (take n xs @ xs ! n # drop (Suc n) xs)"
    using assms id_take_nth_drop [OF assms(2)] by metis
  then show ?thesis
    by simp
qed

lemma distinct_six_events: "distinct six_events"
  by (simp add: six_events_def)

lemma six_events_prefix_incomplete:
  assumes "mset es = mset six_events" and "n < length es"
  shows "\<not> all_provided (take n es)"
proof
  assume ap: "all_provided (take n es)"
  have set_es: "set es = set six_events"
    using assms(1) by (rule mset_eq_setD)
  have dist: "distinct es"
    using mset_eq_imp_distinct_iff [OF assms(1)] distinct_six_events by blast
  have "es ! n \<in> set es"
    using assms(2) by (rule nth_mem)
  then have "es ! n \<in> set six_events"
    by (simp only: set_es)
  then obtain c where c: "\<forall>ev' \<in> set six_events. provides c ev' \<longrightarrow> ev' = es ! n"
    using six_events_unique_provider by blast
  have "c \<in> set all_conds"
    by (cases c) (simp_all add: all_conds_def)
  then have "list_ex (provides c) (take n es)"
    using ap by (simp add: all_provided_def list_all_iff)
  then obtain ev' where ev': "ev' \<in> set (take n es)" "provides c ev'"
    unfolding list_ex_iff by blast
  from ev'(1) have "ev' \<in> set es"
    by (rule in_set_takeD)
  then have "ev' \<in> set six_events"
    by (simp only: set_es)
  then have "ev' = es ! n"
    using c ev'(2) by blast
  then show False
    using ev'(1) nth_not_in_take [OF dist assms(2)] by blast
qed

text \<open>
  Claim C1. From the display that \<^verbatim>\<open>wlt_display_new\<close> returns and after any sequence of
  events: in state RUNNING all six conditions hold and READY has been broadcast exactly
  once; in state INIT not all six hold and READY has not been broadcast; READY is never
  broadcast twice. If no hangup is among the events, the display is RUNNING, with its one
  READY broadcast, exactly if each of the six conditions has been made true by some
  event, in whatever order and with whatever else in between, and it is in state INIT
  otherwise. In particular, in each of the 720 orders of six events that make one
  condition true each, the display is RUNNING with one READY broadcast after the sixth
  and in state INIT without one after each of the first five.
\<close>

theorem display_ready_exactly_once:
  "case dp_run es (wlt_display_new fd, empty_world) of (d, wo) \<Rightarrow>
     (state d = STATE_RUNNING \<longrightarrow> all_ready d \<and> ready_broadcasts wo = 1) \<and>
     (state d = STATE_INIT \<longrightarrow> \<not> all_ready d \<and> ready_broadcasts wo = 0) \<and>
     ready_broadcasts wo \<le> 1 \<and>
     (hangup_free es \<longrightarrow>
        (state d = STATE_RUNNING \<longleftrightarrow> all_provided es) \<and>
        (state d = STATE_INIT \<longleftrightarrow> \<not> all_provided es) \<and>
        ready_broadcasts wo = (if all_provided es then 1 else 0)) \<and>
     (mset es = mset six_events \<longrightarrow>
        state d = STATE_RUNNING \<and> ready_broadcasts wo = 1 \<and>
        (\<forall>n<length es.
           state (fst (dp_run (take n es) (wlt_display_new fd, empty_world))) = STATE_INIT \<and>
           ready_broadcasts (snd (dp_run (take n es) (wlt_display_new fd, empty_world))) = 0))"
proof -
  have gen: "ready_inv (dp_run xs (wlt_display_new fd, empty_world))"
    "all_ready (fst (dp_run xs (wlt_display_new fd, empty_world))) \<longleftrightarrow> all_provided xs"
    "hangup_free xs \<Longrightarrow> state (fst (dp_run xs (wlt_display_new fd, empty_world))) \<noteq> STATE_HUP"
    for xs
    using dp_run_inv [OF ready_inv_new] dp_run_all_ready
      dp_run_no_hup [of "(wlt_display_new fd, empty_world)" xs]
    by (simp_all add: wlt_display_new_def STATE_INIT_def STATE_HUP_def)
  have free: "hangup_free xs \<Longrightarrow>
      (state (fst (dp_run xs (wlt_display_new fd, empty_world))) = STATE_RUNNING \<longleftrightarrow> all_provided xs) \<and>
      (state (fst (dp_run xs (wlt_display_new fd, empty_world))) = STATE_INIT \<longleftrightarrow> \<not> all_provided xs) \<and>
      ready_broadcasts (snd (dp_run xs (wlt_display_new fd, empty_world))) =
        (if all_provided xs then 1 else 0)" for xs
    using gen [of xs]
    by (auto simp: ready_inv_def pre_inv_def STATE_INIT_def STATE_RUNNING_def)
  have perm: "state (fst (dp_run (take n es) (wlt_display_new fd, empty_world))) = STATE_INIT \<and>
      ready_broadcasts (snd (dp_run (take n es) (wlt_display_new fd, empty_world))) = 0"
    if "mset es = mset six_events" "n < length es" for n
  proof -
    have "set (take n es) \<subseteq> set six_events"
      using mset_eq_setD [OF that(1)] by (auto dest: in_set_takeD)
    then have "hangup_free (take n es)"
      using hangup_free_six by (rule hangup_free_subset)
    then show ?thesis
      using free [of "take n es"] six_events_prefix_incomplete [OF that] by simp
  qed
  have full: "state (fst (dp_run es (wlt_display_new fd, empty_world))) = STATE_RUNNING \<and>
      ready_broadcasts (snd (dp_run es (wlt_display_new fd, empty_world))) = 1"
    if "mset es = mset six_events"
  proof -
    have s: "set es = set six_events"
      using that by (rule mset_eq_setD)
    then have "hangup_free es"
      using hangup_free_six hangup_free_subset by blast
    moreover have "all_provided es"
      using all_provided_set [OF s] all_provided_six by simp
    ultimately show ?thesis
      using free [of es] by simp
  qed
  have safe: "(state (fst (dp_run es (wlt_display_new fd, empty_world))) = STATE_RUNNING \<longrightarrow>
        all_ready (fst (dp_run es (wlt_display_new fd, empty_world))) \<and>
        ready_broadcasts (snd (dp_run es (wlt_display_new fd, empty_world))) = 1) \<and>
      (state (fst (dp_run es (wlt_display_new fd, empty_world))) = STATE_INIT \<longrightarrow>
        \<not> all_ready (fst (dp_run es (wlt_display_new fd, empty_world))) \<and>
        ready_broadcasts (snd (dp_run es (wlt_display_new fd, empty_world))) = 0) \<and>
      ready_broadcasts (snd (dp_run es (wlt_display_new fd, empty_world))) \<le> 1"
    using gen(1) [of es]
    by (auto simp: ready_inv_def pre_inv_def STATE_INIT_def STATE_RUNNING_def STATE_HUP_def)
  show ?thesis
    unfolding case_prod_beta
    using safe free [of es] perm full by blast
qed

theorem display_ready_exactly_once_witness:
  "state (fst (dp_run (rev six_events) (wlt_display_new 3, empty_world))) = STATE_RUNNING \<and>
   ready_broadcasts (snd (dp_run (rev six_events) (wlt_display_new 3, empty_world))) = 1 \<and>
   all_ready (fst (dp_run (rev six_events) (wlt_display_new 3, empty_world))) \<and>
   hangup_free (rev six_events) \<and> all_provided (rev six_events) \<and>
   state (fst (dp_run (take 5 (rev six_events)) (wlt_display_new 3, empty_world))) = STATE_INIT"
proof -
  have "all_provided (rev six_events) = all_provided six_events"
    by (rule all_provided_set) simp
  then have m: "mset (rev six_events) = mset six_events" "length (rev six_events) = 6"
    "hangup_free (rev six_events)" "all_provided (rev six_events)"
    using hangup_free_six all_provided_six
    by (simp_all add: hangup_free_def) (simp add: six_events_def)
  show ?thesis
    using display_ready_exactly_once [where es = "rev six_events" and fd = 3] m
    by (auto simp: case_prod_beta)
qed

end
